theory Spec2Isabelle
  imports Main "HOL-Library.Word"
begin

section \<open>Data model of the scheduler (pa2.c)\<close>

text \<open>
  A \<^verbatim>\<open>struct process *\<close> is modelled by a process identifier; the process records
  live in one store \<open>procs\<close>, so that two pointers to the same process alias as in C.
  The intrusive \<^verbatim>\<open>struct list_head\<close> queues (readyqueue, a resource's waitqueue, the
  policies' private stacks) are lists of identifiers, head first.  \<^verbatim>\<open>list_add\<close> is
  \<open>#\<close>, \<^verbatim>\<open>list_add_tail\<close> appends at the end, \<^verbatim>\<open>list_del_init\<close> of an entry
  found in a queue removes it from that queue.
\<close>

type_synonym pid = nat

text \<open>
  Modelled from the spec: \<^verbatim>\<open>process.h\<close> and \<^verbatim>\<open>resource.h\<close> are not part of the
  source file.  The status values are the four states of the spec; the numeric fields are
  C \<^verbatim>\<open>unsigned int\<close> (\<^verbatim>\<open>get_stack_prio\<close> returns the priority as one), hence 32-bit
  words whose \<open>+\<close> wraps and whose \<open><\<close> is the unsigned comparison.
\<close>

datatype process_status = PROCESS_READY | PROCESS_RUNNING | PROCESS_BLOCKED | PROCESS_TERMINATED

record process =
  status :: process_status
  age :: "32 word"
  lifespan :: "32 word"
  prio :: "32 word"
  prio_orig :: "32 word"

record resource =
  owner :: "pid option"
  waitqueue :: "pid list"

text \<open>
  The globals of the file: \<^verbatim>\<open>current\<close> (\<open>None\<close> is \<^verbatim>\<open>NULL\<close>), \<^verbatim>\<open>readyqueue\<close>, the
  table \<^verbatim>\<open>resources[NR_RESOURCES]\<close> (its length is \<^verbatim>\<open>NR_RESOURCES\<close>) and the four
  \<^verbatim>\<open>LIST_HEAD\<close> stacks of the priority family.
\<close>

record sim =
  current :: "pid option"
  procs :: "pid \<Rightarrow> process"
  readyqueue :: "pid list"
  resources :: "resource list"
  prio_stack :: "pid list"
  pa_stack :: "pid list"
  pcp_stack :: "pid list"
  pip_stack :: "pid list"

text \<open>
  What a call can do besides returning.  \<open>AssertFailed\<close> is the abort of a failing
  \<^verbatim>\<open>assert\<close>.  The other three stand for accesses whose result C leaves undefined and
  which the model follows no further: the table indexed outside \<open>0 ..< NR_RESOURCES\<close>
  (what the call does then depends on the memory next to the table), a field of
  \<^verbatim>\<open>current\<close> read or written while it is \<^verbatim>\<open>NULL\<close>, and a field read through
  \<^verbatim>\<open>list_first_entry\<close> of an empty list (which is no process at all, but the list head
  itself).
\<close>

datatype fault = AssertFailed | OutOfTable | NullCurrent | EmptyListEntry

definition in_table :: "int \<Rightarrow> sim \<Rightarrow> bool" where
  "in_table resource_id s \<longleftrightarrow> 0 \<le> resource_id \<and> resource_id < int (length (resources s))"

definition get_resource :: "int \<Rightarrow> sim \<Rightarrow> resource" where
  "get_resource resource_id s = resources s ! nat resource_id"

definition put_resource :: "int \<Rightarrow> resource \<Rightarrow> sim \<Rightarrow> sim" where
  "put_resource resource_id r s = s\<lparr>resources := (resources s)[nat resource_id := r]\<rparr>"

definition set_status :: "pid \<Rightarrow> process_status \<Rightarrow> sim \<Rightarrow> sim" where
  "set_status p st s = s\<lparr>procs := (procs s)(p := (procs s p)\<lparr>status := st\<rparr>)\<rparr>"

definition set_prio :: "pid \<Rightarrow> 32 word \<Rightarrow> sim \<Rightarrow> sim" where
  "set_prio p v s = s\<lparr>procs := (procs s)(p := (procs s p)\<lparr>prio := v\<rparr>)\<rparr>"

section \<open>Default FCFS resource arbitration\<close>

text \<open>
  \<^verbatim>\<open>fcfs_acquire\<close>: an unowned resource is taken (\<^verbatim>\<open>r->owner = current\<close>, true);
  otherwise \<^verbatim>\<open>current->status = PROCESS_BLOCKED\<close>, \<^verbatim>\<open>current\<close> is added at the tail
  of the waitqueue, false.
\<close>

definition block_current :: "int \<Rightarrow> sim \<Rightarrow> fault + sim" where
  "block_current resource_id s =
     (case current s of
        None \<Rightarrow> Inl NullCurrent
      | Some c \<Rightarrow>
          let s1 = set_status c PROCESS_BLOCKED s;
              r = get_resource resource_id s1
          in Inr (put_resource resource_id (r\<lparr>waitqueue := waitqueue r @ [c]\<rparr>) s1))"

definition fcfs_acquire :: "int \<Rightarrow> sim \<Rightarrow> fault + (bool \<times> sim)" where
  "fcfs_acquire resource_id s =
     (if \<not> in_table resource_id s then Inl OutOfTable
      else let r = get_resource resource_id s in
        if owner r = None then Inr (True, put_resource resource_id (r\<lparr>owner := current s\<rparr>) s)
        else (case block_current resource_id s of
                Inl f \<Rightarrow> Inl f
              | Inr s' \<Rightarrow> Inr (False, s')))"

text \<open>
  The tail of every release: the chosen waiter must be blocked (\<^verbatim>\<open>assert\<close>), leaves the
  waitqueue (\<^verbatim>\<open>list_del_init\<close>), becomes ready and is added at the tail of the readyqueue.
\<close>

definition wake :: "int \<Rightarrow> pid \<Rightarrow> sim \<Rightarrow> fault + sim" where
  "wake resource_id waiter s =
     (if status (procs s waiter) \<noteq> PROCESS_BLOCKED then Inl AssertFailed
      else
        let r = get_resource resource_id s;
            s1 = put_resource resource_id (r\<lparr>waitqueue := remove1 waiter (waitqueue r)\<rparr>) s;
            s2 = set_status waiter PROCESS_READY s1
        in Inr (s2\<lparr>readyqueue := readyqueue s2 @ [waiter]\<rparr>))"

definition fcfs_release :: "int \<Rightarrow> sim \<Rightarrow> fault + sim" where
  "fcfs_release resource_id s =
     (if \<not> in_table resource_id s then Inl OutOfTable
      else let r = get_resource resource_id s in
        if owner r \<noteq> current s then Inl AssertFailed
        else
          let s1 = put_resource resource_id (r\<lparr>owner := None\<rparr>) s in
          (case waitqueue (get_resource resource_id s1) of
             [] \<Rightarrow> Inr s1
           | waiter # _ \<Rightarrow> wake resource_id waiter s1))"

section \<open>STCF\<close>

text \<open>
  \<^verbatim>\<open>remain_time\<close> returns the unsigned difference \<^verbatim>\<open>lifespan - age\<close> as an
  \<^verbatim>\<open>int\<close>: the two's complement reading of the 32-bit difference.
\<close>

definition remain_time :: "process \<Rightarrow> int" where
  "remain_time tmp = sint (lifespan tmp - age tmp)"

text \<open>
  The \<^verbatim>\<open>list_for_each_entry\<close> loop of \<^verbatim>\<open>get_shortest\<close>, with the running
  \<^verbatim>\<open>shortest\<close> as accumulator.  The loop starts from the first entry and visits every
  entry, the first one included.  On an empty readyqueue the loop body never runs and the
  function returns the pseudo-entry of the list head, which is no process: \<open>None\<close>.
\<close>

fun shortest_loop :: "(pid \<Rightarrow> process) \<Rightarrow> pid \<Rightarrow> pid list \<Rightarrow> pid" where
  "shortest_loop ps shortest [] = shortest"
| "shortest_loop ps shortest (tmp # rest) =
     shortest_loop ps
       (if remain_time (ps tmp) < remain_time (ps shortest) then tmp else shortest) rest"

definition get_shortest :: "sim \<Rightarrow> pid option" where
  "get_shortest s =
     (case readyqueue s of
        [] \<Rightarrow> None
      | first # _ \<Rightarrow> Some (shortest_loop (procs s) first (readyqueue s)))"

definition stcf_pick_next :: "sim \<Rightarrow> fault + (pid option \<times> sim)" where
  "stcf_pick_next s =
     (if readyqueue s \<noteq> [] then
        (case get_shortest s of
           None \<Rightarrow> Inl EmptyListEntry
         | Some next \<Rightarrow> Inr (Some next, s\<lparr>readyqueue := remove1 next (readyqueue s)\<rparr>))
      else Inr (None, s))"

definition stcf_schedule :: "sim \<Rightarrow> fault + (pid option \<times> sim)" where
  "stcf_schedule s =
     (case current s of
        None \<Rightarrow> stcf_pick_next s
      | Some c \<Rightarrow>
          if status (procs s c) = PROCESS_BLOCKED then stcf_pick_next s
          else if age (procs s c) < lifespan (procs s c) then
            (if get_shortest s \<noteq> Some c
             then stcf_pick_next (s\<lparr>readyqueue := c # readyqueue s\<rparr>)
             else Inr (Some c, s))
          else stcf_pick_next s)"

section \<open>Priority-aware resource arbitration\<close>

definition prio_acquire :: "int \<Rightarrow> sim \<Rightarrow> fault + (bool \<times> sim)" where
  "prio_acquire resource_id s =
     (if \<not> in_table resource_id s then Inl OutOfTable
      else let r = get_resource resource_id s in
        if owner r = None then Inr (True, put_resource resource_id (r\<lparr>owner := current s\<rparr>) s)
        else (case block_current resource_id s of
                Inl f \<Rightarrow> Inl f
              | Inr s' \<Rightarrow> Inr (False, s')))"

text \<open>
  The loop shared by \<^verbatim>\<open>get_highest_prio_wait\<close> (over a waitqueue) and
  \<^verbatim>\<open>get_highest_prio\<close> (over the readyqueue): \<^verbatim>\<open>highest\<close> starts as the first entry
  and is replaced by an entry of strictly greater \<^verbatim>\<open>prio\<close>.  \<open>None\<close> is again the
  pseudo-entry returned for an empty list.
\<close>

fun highest_loop :: "(pid \<Rightarrow> process) \<Rightarrow> pid \<Rightarrow> pid list \<Rightarrow> pid" where
  "highest_loop ps highest [] = highest"
| "highest_loop ps highest (tmp # rest) =
     highest_loop ps (if prio (ps tmp) > prio (ps highest) then tmp else highest) rest"

definition highest_of :: "(pid \<Rightarrow> process) \<Rightarrow> pid list \<Rightarrow> pid option" where
  "highest_of ps q = (case q of [] \<Rightarrow> None | first # _ \<Rightarrow> Some (highest_loop ps first q))"

definition get_highest_prio_wait :: "resource \<Rightarrow> sim \<Rightarrow> pid option" where
  "get_highest_prio_wait r s = highest_of (procs s) (waitqueue r)"

definition get_highest_prio :: "sim \<Rightarrow> pid option" where
  "get_highest_prio s = highest_of (procs s) (readyqueue s)"

text \<open>
  The part of \<^verbatim>\<open>prio_release\<close>, \<^verbatim>\<open>pcp_release\<close> and \<^verbatim>\<open>pip_release\<close> after
  \<^verbatim>\<open>r->owner = NULL\<close>, the same text in all three.
\<close>

definition wake_highest :: "int \<Rightarrow> sim \<Rightarrow> fault + sim" where
  "wake_highest resource_id s =
     (let r = get_resource resource_id s in
      if waitqueue r \<noteq> [] then
        (case get_highest_prio_wait r s of
           None \<Rightarrow> Inl EmptyListEntry
         | Some waiter \<Rightarrow> wake resource_id waiter s)
      else Inr s)"

definition prio_release :: "int \<Rightarrow> sim \<Rightarrow> fault + sim" where
  "prio_release resource_id s =
     (if \<not> in_table resource_id s then Inl OutOfTable
      else let r = get_resource resource_id s in
        if owner r \<noteq> current s then Inl AssertFailed
        else wake_highest resource_id (put_resource resource_id (r\<lparr>owner := None\<rparr>) s))"

section \<open>Priority-ceiling and priority-inheritance arbitration\<close>

text \<open>
  \<open>MAX_PRIO\<close> is a macro of the absent \<^verbatim>\<open>process.h\<close>; the functions that mention it
  take its value as their first argument.
\<close>

definition pcp_acquire :: "32 word \<Rightarrow> int \<Rightarrow> sim \<Rightarrow> fault + (bool \<times> sim)" where
  "pcp_acquire MAX_PRIO resource_id s =
     (if \<not> in_table resource_id s then Inl OutOfTable
      else let r = get_resource resource_id s in
        if owner r = None then
          (let s1 = put_resource resource_id (r\<lparr>owner := current s\<rparr>) s in
           case current s1 of
             None \<Rightarrow> Inl NullCurrent
           | Some c \<Rightarrow> Inr (True, set_prio c MAX_PRIO s1))
        else (case block_current resource_id s of
                Inl f \<Rightarrow> Inl f
              | Inr s' \<Rightarrow> Inr (False, s')))"

text \<open>
  \<^verbatim>\<open>r->owner->prio = current->prio_orig\<close> follows the assertion that the owner is
  \<^verbatim>\<open>current\<close>; both are \<^verbatim>\<open>NULL\<close> when a free resource is released with no current
  process.
\<close>

definition restore_owner :: "int \<Rightarrow> sim \<Rightarrow> fault + sim" where
  "restore_owner resource_id s =
     (case (owner (get_resource resource_id s), current s) of
        (Some ow, Some c) \<Rightarrow> Inr (set_prio ow (prio_orig (procs s c)) s)
      | _ \<Rightarrow> Inl NullCurrent)"

definition pcp_release :: "int \<Rightarrow> sim \<Rightarrow> fault + sim" where
  "pcp_release resource_id s =
     (if \<not> in_table resource_id s then Inl OutOfTable
      else if owner (get_resource resource_id s) \<noteq> current s then Inl AssertFailed
      else (case restore_owner resource_id s of
              Inl f \<Rightarrow> Inl f
            | Inr s1 \<Rightarrow>
                let r = get_resource resource_id s1
                in wake_highest resource_id (put_resource resource_id (r\<lparr>owner := None\<rparr>) s1)))"

text \<open>
  \<^verbatim>\<open>pip_acquire\<close> on contention: after \<^verbatim>\<open>current\<close> has joined the waitqueue, the
  owner's \<^verbatim>\<open>prio\<close> is overwritten with \<^verbatim>\<open>current->prio\<close> when that equals the
  \<^verbatim>\<open>prio\<close> of \<^verbatim>\<open>get_highest_prio_wait(r)\<close>.
\<close>

definition pip_acquire :: "int \<Rightarrow> sim \<Rightarrow> fault + (bool \<times> sim)" where
  "pip_acquire resource_id s =
     (if \<not> in_table resource_id s then Inl OutOfTable
      else let r = get_resource resource_id s in
        if owner r = None then Inr (True, put_resource resource_id (r\<lparr>owner := current s\<rparr>) s)
        else (case block_current resource_id s of
                Inl f \<Rightarrow> Inl f
              | Inr s1 \<Rightarrow>
                  let r1 = get_resource resource_id s1 in
                  (case (current s1, get_highest_prio_wait r1 s1, owner r1) of
                     (Some c, Some h, Some ow) \<Rightarrow>
                       if prio (procs s1 c) = prio (procs s1 h)
                       then Inr (False, set_prio ow (prio (procs s1 c)) s1)
                       else Inr (False, s1)
                   | _ \<Rightarrow> Inl EmptyListEntry)))"

definition pip_release :: "int \<Rightarrow> sim \<Rightarrow> fault + sim" where
  "pip_release resource_id s =
     (if \<not> in_table resource_id s then Inl OutOfTable
      else if owner (get_resource resource_id s) \<noteq> current s then Inl AssertFailed
      else (case restore_owner resource_id s of
              Inl f \<Rightarrow> Inl f
            | Inr s1 \<Rightarrow>
                let r = get_resource resource_id s1
                in wake_highest resource_id (put_resource resource_id (r\<lparr>owner := None\<rparr>) s1)))"

section \<open>The priority family of schedulers\<close>

text \<open>
  Each \<^verbatim>\<open>schedule()\<close> of the family is its text up to the label \<^verbatim>\<open>pick_next\<close>
  (\<open>_check\<close>: it either returns \<^verbatim>\<open>current\<close> or jumps to the label, having put
  \<^verbatim>\<open>current\<close> somewhere) followed by the text after the label (\<open>_pick_next\<close>).
\<close>

datatype sched_step = Return "pid option" sim | Goto_pick_next sim

text \<open>
  \<^verbatim>\<open>get_stack_prio\<close>, \<^verbatim>\<open>get_pastack_prio\<close>, \<^verbatim>\<open>get_pcpstack_prio\<close> and
  \<^verbatim>\<open>get_pipstack_prio\<close>: the \<^verbatim>\<open>prio\<close> of \<^verbatim>\<open>list_first_entry\<close> of the stack.  For an
  empty stack there is no such entry.
\<close>

definition head_prio :: "(pid \<Rightarrow> process) \<Rightarrow> pid list \<Rightarrow> 32 word option" where
  "head_prio ps stack = (case stack of [] \<Rightarrow> None | first # _ \<Rightarrow> Some (prio (ps first)))"

text \<open>
  The \<^verbatim>\<open>list_for_each_entry_safe\<close> loops that empty a stack into the readyqueue, entry
  by entry from the head of the stack: with \<^verbatim>\<open>list_add\<close> each entry goes to the head of
  the readyqueue, with \<^verbatim>\<open>list_add_tail\<close> to its tail.
\<close>

fun drain_add :: "pid list \<Rightarrow> pid list \<Rightarrow> pid list" where
  "drain_add [] rq = rq"
| "drain_add (pos # rest) rq = drain_add rest (pos # rq)"

fun drain_add_tail :: "pid list \<Rightarrow> pid list \<Rightarrow> pid list" where
  "drain_add_tail [] rq = rq"
| "drain_add_tail (pos # rest) rq = drain_add_tail rest (rq @ [pos])"

subsection \<open>Priority\<close>

definition prio_check :: "sim \<Rightarrow> fault + sched_step" where
  "prio_check s =
     (case current s of
        None \<Rightarrow> Inr (Goto_pick_next s)
      | Some c \<Rightarrow>
          if status (procs s c) = PROCESS_BLOCKED then Inr (Goto_pick_next s)
          else if age (procs s c) < lifespan (procs s c) then
            (case get_highest_prio s of
               None \<Rightarrow> Inl EmptyListEntry
             | Some h \<Rightarrow>
                 if prio (procs s h) = prio (procs s c) then
                   (if readyqueue s = [] \<and> prio_stack s = [] then Inr (Return (Some c) s)
                    else Inr (Goto_pick_next (s\<lparr>prio_stack := c # prio_stack s\<rparr>)))
                 else
                   (case head_prio (procs s) (prio_stack s) of
                      None \<Rightarrow> Inl EmptyListEntry
                    | Some sp \<Rightarrow>
                        if sp = prio (procs s c)
                        then Inr (Goto_pick_next (s\<lparr>prio_stack := c # prio_stack s\<rparr>))
                        else Inr (Goto_pick_next (s\<lparr>readyqueue := c # readyqueue s\<rparr>))))
          else Inr (Goto_pick_next s))"

definition prio_pick_next :: "sim \<Rightarrow> fault + (pid option \<times> sim)" where
  "prio_pick_next s =
     (if \<not> (readyqueue s = [] \<and> prio_stack s = []) then
        let s1 = (if readyqueue s = [] then
                    (if prio_stack s \<noteq> []
                     then s\<lparr>readyqueue := drain_add (prio_stack s) (readyqueue s), prio_stack := []\<rparr>
                     else s)
                  else s)
        in
        (case get_highest_prio s1 of
           None \<Rightarrow> Inl EmptyListEntry
         | Some next \<Rightarrow>
             let s2 = s1\<lparr>readyqueue := remove1 next (readyqueue s1)\<rparr> in
             if prio_stack s2 \<noteq> [] then
               (case head_prio (procs s2) (prio_stack s2) of
                  None \<Rightarrow> Inl EmptyListEntry
                | Some sp \<Rightarrow>
                    if sp \<noteq> prio (procs s2 next) then
                      let s3 = s2\<lparr>readyqueue := drain_add (prio_stack s2) (readyqueue s2),
                                  prio_stack := []\<rparr>;
                          s4 = s3\<lparr>readyqueue := next # readyqueue s3\<rparr>
                      in
                      (case get_highest_prio s4 of
                         None \<Rightarrow> Inl EmptyListEntry
                       | Some next' \<Rightarrow>
                           Inr (Some next', s4\<lparr>readyqueue := remove1 next' (readyqueue s4)\<rparr>))
                    else Inr (Some next, s2))
             else Inr (Some next, s2))
      else Inr (None, s))"

definition prio_schedule :: "sim \<Rightarrow> fault + (pid option \<times> sim)" where
  "prio_schedule s =
     (case prio_check s of
        Inl f \<Rightarrow> Inl f
      | Inr (Return next s') \<Rightarrow> Inr (next, s')
      | Inr (Goto_pick_next s') \<Rightarrow> prio_pick_next s')"

subsection \<open>Priority with aging\<close>

definition prio_reset :: "pid \<Rightarrow> sim \<Rightarrow> sim" where
  "prio_reset p s = set_prio p (prio_orig (procs s p)) s"

text \<open>
  One iteration of either loop of \<^verbatim>\<open>prio_boost\<close>: \<^verbatim>\<open>tmp->prio++\<close>, then
  \<^verbatim>\<open>if (tmp->prio == MAX_PRIO) tmp->prio = MAX_PRIO\<close>.
\<close>

definition boost_one :: "32 word \<Rightarrow> process \<Rightarrow> process" where
  "boost_one MAX_PRIO tmp =
     (let tmp1 = tmp\<lparr>prio := prio tmp + 1\<rparr>
      in if prio tmp1 = MAX_PRIO then tmp1\<lparr>prio := MAX_PRIO\<rparr> else tmp1)"

fun boost_loop :: "32 word \<Rightarrow> pid list \<Rightarrow> (pid \<Rightarrow> process) \<Rightarrow> (pid \<Rightarrow> process)" where
  "boost_loop MAX_PRIO [] ps = ps"
| "boost_loop MAX_PRIO (tmp # rest) ps =
     boost_loop MAX_PRIO rest (ps(tmp := boost_one MAX_PRIO (ps tmp)))"

definition prio_boost :: "32 word \<Rightarrow> sim \<Rightarrow> sim" where
  "prio_boost MAX_PRIO s =
     s\<lparr>procs := boost_loop MAX_PRIO (pa_stack s) (boost_loop MAX_PRIO (readyqueue s) (procs s))\<rparr>"

text \<open>The first block of \<^verbatim>\<open>pa_schedule\<close>, run when \<^verbatim>\<open>current != NULL\<close>.\<close>

definition pa_aging :: "32 word \<Rightarrow> sim \<Rightarrow> sim" where
  "pa_aging MAX_PRIO s =
     (case current s of
        None \<Rightarrow> s
      | Some c \<Rightarrow> prio_boost MAX_PRIO (prio_reset c s))"

definition pa_check :: "sim \<Rightarrow> fault + sched_step" where
  "pa_check s =
     (case current s of
        None \<Rightarrow> Inr (Goto_pick_next s)
      | Some c \<Rightarrow>
          if status (procs s c) = PROCESS_BLOCKED then Inr (Goto_pick_next s)
          else if age (procs s c) < lifespan (procs s c) then
            (case get_highest_prio s of
               None \<Rightarrow> Inl EmptyListEntry
             | Some h \<Rightarrow>
                 if prio (procs s h) = prio (procs s c) then
                   (if readyqueue s = [] \<and> pa_stack s = [] then Inr (Return (Some c) s)
                    else Inr (Goto_pick_next (s\<lparr>pa_stack := c # pa_stack s\<rparr>)))
                 else
                   (case head_prio (procs s) (pa_stack s) of
                      None \<Rightarrow> Inl EmptyListEntry
                    | Some sp \<Rightarrow>
                        if sp = prio (procs s c)
                        then Inr (Goto_pick_next (s\<lparr>pa_stack := c # pa_stack s\<rparr>))
                        else Inr (Goto_pick_next (s\<lparr>readyqueue := readyqueue s @ [c]\<rparr>))))
          else Inr (Goto_pick_next s))"

definition pa_pick_next :: "sim \<Rightarrow> fault + (pid option \<times> sim)" where
  "pa_pick_next s =
     (if \<not> (readyqueue s = [] \<and> pa_stack s = []) then
        let s1 = (if readyqueue s = [] then
                    (if pa_stack s \<noteq> []
                     then s\<lparr>readyqueue := drain_add_tail (pa_stack s) (readyqueue s), pa_stack := []\<rparr>
                     else s)
                  else s)
        in
        (case get_highest_prio s1 of
           None \<Rightarrow> Inl EmptyListEntry
         | Some next \<Rightarrow>
             let s2 = s1\<lparr>readyqueue := remove1 next (readyqueue s1)\<rparr> in
             if pa_stack s2 \<noteq> [] then
               (case head_prio (procs s2) (pa_stack s2) of
                  None \<Rightarrow> Inl EmptyListEntry
                | Some sp \<Rightarrow>
                    if sp \<noteq> prio (procs s2 next) then
                      let s3 = s2\<lparr>readyqueue := drain_add_tail (pa_stack s2) (readyqueue s2),
                                  pa_stack := []\<rparr>;
                          s4 = s3\<lparr>readyqueue := next # readyqueue s3\<rparr>
                      in
                      (case get_highest_prio s4 of
                         None \<Rightarrow> Inl EmptyListEntry
                       | Some next' \<Rightarrow>
                           Inr (Some next', s4\<lparr>readyqueue := remove1 next' (readyqueue s4)\<rparr>))
                    else Inr (Some next, s2))
             else Inr (Some next, s2))
      else Inr (None, s))"

definition pa_schedule :: "32 word \<Rightarrow> sim \<Rightarrow> fault + (pid option \<times> sim)" where
  "pa_schedule MAX_PRIO s =
     (case pa_check (pa_aging MAX_PRIO s) of
        Inl f \<Rightarrow> Inl f
      | Inr (Return next s') \<Rightarrow> Inr (next, s')
      | Inr (Goto_pick_next s') \<Rightarrow> pa_pick_next s')"

subsection \<open>Priority with the ceiling protocol\<close>

definition pcp_check :: "sim \<Rightarrow> fault + sched_step" where
  "pcp_check s =
     (case current s of
        None \<Rightarrow> Inr (Goto_pick_next s)
      | Some c \<Rightarrow>
          if status (procs s c) = PROCESS_BLOCKED then Inr (Goto_pick_next s)
          else if age (procs s c) < lifespan (procs s c) then
            (case get_highest_prio s of
               None \<Rightarrow> Inl EmptyListEntry
             | Some h \<Rightarrow>
                 if prio (procs s h) = prio (procs s c) then
                   (if readyqueue s = [] \<and> pcp_stack s = [] then Inr (Return (Some c) s)
                    else Inr (Goto_pick_next (s\<lparr>pcp_stack := c # pcp_stack s\<rparr>)))
                 else
                   (case head_prio (procs s) (pcp_stack s) of
                      None \<Rightarrow> Inl EmptyListEntry
                    | Some sp \<Rightarrow>
                        if sp = prio (procs s c)
                        then Inr (Goto_pick_next (s\<lparr>pcp_stack := c # pcp_stack s\<rparr>))
                        else Inr (Goto_pick_next (s\<lparr>readyqueue := readyqueue s @ [c]\<rparr>))))
          else Inr (Goto_pick_next s))"

definition pcp_pick_next :: "sim \<Rightarrow> fault + (pid option \<times> sim)" where
  "pcp_pick_next s =
     (if \<not> (readyqueue s = [] \<and> pcp_stack s = []) then
        let s1 = (if readyqueue s = [] then
                    (if pcp_stack s \<noteq> []
                     then s\<lparr>readyqueue := drain_add (pcp_stack s) (readyqueue s), pcp_stack := []\<rparr>
                     else s)
                  else s)
        in
        (case get_highest_prio s1 of
           None \<Rightarrow> Inl EmptyListEntry
         | Some next \<Rightarrow>
             let s2 = s1\<lparr>readyqueue := remove1 next (readyqueue s1)\<rparr> in
             if pcp_stack s2 \<noteq> [] then
               (case head_prio (procs s2) (pcp_stack s2) of
                  None \<Rightarrow> Inl EmptyListEntry
                | Some sp \<Rightarrow>
                    if sp \<noteq> prio (procs s2 next) then
                      let s3 = s2\<lparr>readyqueue := drain_add (pcp_stack s2) (readyqueue s2),
                                  pcp_stack := []\<rparr>;
                          s4 = s3\<lparr>readyqueue := next # readyqueue s3\<rparr>
                      in
                      (case get_highest_prio s4 of
                         None \<Rightarrow> Inl EmptyListEntry
                       | Some next' \<Rightarrow>
                           Inr (Some next', s4\<lparr>readyqueue := remove1 next' (readyqueue s4)\<rparr>))
                    else Inr (Some next, s2))
             else Inr (Some next, s2))
      else Inr (None, s))"

definition pcp_schedule :: "sim \<Rightarrow> fault + (pid option \<times> sim)" where
  "pcp_schedule s =
     (case pcp_check s of
        Inl f \<Rightarrow> Inl f
      | Inr (Return next s') \<Rightarrow> Inr (next, s')
      | Inr (Goto_pick_next s') \<Rightarrow> pcp_pick_next s')"

subsection \<open>Priority with the inheritance protocol\<close>

text \<open>
  In \<^verbatim>\<open>pip_schedule\<close> the last loop is guarded by \<^verbatim>\<open>pip_stack\<close> but iterates over
  \<^verbatim>\<open>pcp_stack\<close>, as the source has it.
\<close>

definition pip_check :: "sim \<Rightarrow> fault + sched_step" where
  "pip_check s =
     (case current s of
        None \<Rightarrow> Inr (Goto_pick_next s)
      | Some c \<Rightarrow>
          if status (procs s c) = PROCESS_BLOCKED then Inr (Goto_pick_next s)
          else if age (procs s c) < lifespan (procs s c) then
            (case get_highest_prio s of
               None \<Rightarrow> Inl EmptyListEntry
             | Some h \<Rightarrow>
                 if prio (procs s h) = prio (procs s c) then
                   (if readyqueue s = [] \<and> pip_stack s = [] then Inr (Return (Some c) s)
                    else Inr (Goto_pick_next (s\<lparr>pip_stack := c # pip_stack s\<rparr>)))
                 else
                   (case head_prio (procs s) (pip_stack s) of
                      None \<Rightarrow> Inl EmptyListEntry
                    | Some sp \<Rightarrow>
                        if sp = prio (procs s c)
                        then Inr (Goto_pick_next (s\<lparr>pip_stack := c # pip_stack s\<rparr>))
                        else Inr (Goto_pick_next (s\<lparr>readyqueue := readyqueue s @ [c]\<rparr>))))
          else Inr (Goto_pick_next s))"

definition pip_pick_next :: "sim \<Rightarrow> fault + (pid option \<times> sim)" where
  "pip_pick_next s =
     (if \<not> (readyqueue s = [] \<and> pip_stack s = []) then
        let s1 = (if readyqueue s = [] then
                    (if pip_stack s \<noteq> []
                     then s\<lparr>readyqueue := drain_add (pip_stack s) (readyqueue s), pip_stack := []\<rparr>
                     else s)
                  else s)
        in
        (case get_highest_prio s1 of
           None \<Rightarrow> Inl EmptyListEntry
         | Some next \<Rightarrow>
             let s2 = s1\<lparr>readyqueue := remove1 next (readyqueue s1)\<rparr> in
             if pip_stack s2 \<noteq> [] then
               (case head_prio (procs s2) (pip_stack s2) of
                  None \<Rightarrow> Inl EmptyListEntry
                | Some sp \<Rightarrow>
                    if sp \<noteq> prio (procs s2 next) then
                      let s3 = s2\<lparr>readyqueue := drain_add (pcp_stack s2) (readyqueue s2),
                                  pcp_stack := []\<rparr>;
                          s4 = s3\<lparr>readyqueue := next # readyqueue s3\<rparr>
                      in
                      (case get_highest_prio s4 of
                         None \<Rightarrow> Inl EmptyListEntry
                       | Some next' \<Rightarrow>
                           Inr (Some next', s4\<lparr>readyqueue := remove1 next' (readyqueue s4)\<rparr>))
                    else Inr (Some next, s2))
             else Inr (Some next, s2))
      else Inr (None, s))"

definition pip_schedule :: "sim \<Rightarrow> fault + (pid option \<times> sim)" where
  "pip_schedule s =
     (case pip_check s of
        Inl f \<Rightarrow> Inl f
      | Inr (Return next s') \<Rightarrow> Inr (next, s')
      | Inr (Goto_pick_next s') \<Rightarrow> pip_pick_next s')"

section \<open>First extremum of a queue\<close>

text \<open>
  What the scans are shown to compute: \<open>w\<close> occurs in the queue, everything in front of
  it is strictly worse and nothing behind it is better.
\<close>

abbreviation first_max :: "(pid \<Rightarrow> process) \<Rightarrow> pid list \<Rightarrow> pid \<Rightarrow> bool" where
  "first_max ps q w \<equiv>
     (\<exists>ys zs. q = ys @ w # zs \<and> (\<forall>y\<in>set ys. prio (ps y) < prio (ps w))
        \<and> (\<forall>z\<in>set zs. prio (ps z) \<le> prio (ps w)))"

abbreviation first_min :: "(pid \<Rightarrow> process) \<Rightarrow> pid list \<Rightarrow> pid \<Rightarrow> bool" where
  "first_min ps q w \<equiv>
     (\<exists>ys zs. q = ys @ w # zs \<and> (\<forall>y\<in>set ys. remain_time (ps w) < remain_time (ps y))
        \<and> (\<forall>z\<in>set zs. remain_time (ps w) \<le> remain_time (ps z)))"

text \<open>
  The remaining time of a process as a number, \<open>lifespan - age\<close> without wrap-around.
\<close>

abbreviation time_left :: "process \<Rightarrow> int" where
  "time_left p \<equiv> uint (lifespan p) - uint (age p)"

section \<open>Example states\<close>

text \<open>
  Concrete states on which the functions are run below.  Process identifiers are small
  numbers; a process is given by its status, age, lifespan and priority (its original
  priority being the same); the table has two resources.
\<close>

definition proc_of :: "process_status \<Rightarrow> 32 word \<Rightarrow> 32 word \<Rightarrow> 32 word \<Rightarrow> process" where
  "proc_of st a l p = \<lparr>status = st, age = a, lifespan = l, prio = p, prio_orig = p\<rparr>"

definition free_resource :: resource where
  "free_resource = \<lparr>owner = None, waitqueue = []\<rparr>"

definition ex_idle :: sim where
  "ex_idle = \<lparr>current = None, procs = (\<lambda>_. proc_of PROCESS_READY 0 1 0), readyqueue = [],
     resources = [free_resource, free_resource],
     prio_stack = [], pa_stack = [], pcp_stack = [], pip_stack = []\<rparr>"

definition ex_free :: sim where
  "ex_free = ex_idle\<lparr>current := Some 1,
     procs := (procs ex_idle)(1 := proc_of PROCESS_RUNNING 0 5 2)\<rparr>"

definition ex_held :: sim where
  "ex_held = ex_idle\<lparr>current := Some 2,
     procs := (procs ex_idle)(1 := proc_of PROCESS_BLOCKED 1 5 5, 2 := proc_of PROCESS_RUNNING 2 5 1),
     resources := [\<lparr>owner = Some 1, waitqueue = []\<rparr>, \<lparr>owner = Some 2, waitqueue = [1]\<rparr>,
                   free_resource]\<rparr>"

definition ex_waiting :: sim where
  "ex_waiting = ex_idle\<lparr>current := Some 1,
     procs := (procs ex_idle)(1 := proc_of PROCESS_RUNNING 2 5 2, 2 := proc_of PROCESS_BLOCKED 0 5 3,
        3 := proc_of PROCESS_BLOCKED 0 5 7, 4 := proc_of PROCESS_BLOCKED 0 5 7),
     resources := [\<lparr>owner = Some 1, waitqueue = [2, 3, 4]\<rparr>, free_resource]\<rparr>"

definition ex_pcp_owner :: sim where
  "ex_pcp_owner = ex_waiting\<lparr>
     procs := (procs ex_waiting)(1 := (proc_of PROCESS_RUNNING 2 5 2)\<lparr>prio := 64\<rparr>)\<rparr>"

definition ex_stcf :: sim where
  "ex_stcf = ex_idle\<lparr>current := Some 1,
     procs := (procs ex_idle)(1 := proc_of PROCESS_RUNNING 8 10 0, 2 := proc_of PROCESS_READY 0 3 0,
        3 := proc_of PROCESS_READY 0 1 0),
     readyqueue := [2]\<rparr>"

definition ex_stcf_short :: sim where
  "ex_stcf_short = ex_stcf\<lparr>readyqueue := [2, 3]\<rparr>"

definition ex_stcf_long :: sim where
  "ex_stcf_long = ex_idle\<lparr>current := Some 1,
     procs := (procs ex_idle)(1 := proc_of PROCESS_RUNNING 0 3000000000 0,
        2 := proc_of PROCESS_READY 0 5 0),
     readyqueue := [2]\<rparr>"

definition ex_cohort :: sim where
  "ex_cohort = ex_idle\<lparr>current := Some 1,
     procs := (procs ex_idle)(1 := proc_of PROCESS_RUNNING 1 5 3, 2 := proc_of PROCESS_READY 0 5 5,
        3 := proc_of PROCESS_READY 1 5 3),
     readyqueue := [2], pcp_stack := [3]\<rparr>"

definition ex_preempt :: sim where
  "ex_preempt = ex_idle\<lparr>current := Some 1,
     procs := (procs ex_idle)(1 := proc_of PROCESS_RUNNING 1 5 3, 2 := proc_of PROCESS_READY 0 5 5,
        3 := proc_of PROCESS_READY 1 5 4),
     readyqueue := [2]\<rparr>"

definition ex_preempt_pa :: sim where
  "ex_preempt_pa = ex_preempt\<lparr>pa_stack := [3]\<rparr>"

definition ex_preempt_pcp :: sim where
  "ex_preempt_pcp = ex_preempt\<lparr>pcp_stack := [3]\<rparr>"

definition ex_preempt_pip :: sim where
  "ex_preempt_pip = ex_preempt\<lparr>pip_stack := [3]\<rparr>"

definition ex_first_preempt :: sim where
  "ex_first_preempt = ex_idle\<lparr>current := Some 1,
     procs := (procs ex_idle)(1 := proc_of PROCESS_RUNNING 1 5 1, 2 := proc_of PROCESS_READY 0 5 2),
     readyqueue := [2]\<rparr>"

definition ex_pip_blocked :: sim where
  "ex_pip_blocked = ex_idle\<lparr>current := Some 3,
     procs := (procs ex_idle)(1 := proc_of PROCESS_READY 1 5 3, 2 := proc_of PROCESS_READY 0 5 5,
        3 := proc_of PROCESS_BLOCKED 1 5 3),
     readyqueue := [2], pip_stack := [1]\<rparr>"

definition ex_pcp_blocked :: sim where
  "ex_pcp_blocked = ex_pip_blocked\<lparr>pip_stack := [], pcp_stack := [1]\<rparr>"

definition ex_ceiling :: "32 word \<Rightarrow> sim" where
  "ex_ceiling MAX_PRIO = ex_idle\<lparr>current := Some 1,
     procs := (procs ex_idle)(1 := proc_of PROCESS_RUNNING 1 5 10,
        2 := proc_of PROCESS_READY 0 5 MAX_PRIO, 3 := proc_of PROCESS_READY 1 5 9),
     readyqueue := [2], pa_stack := [3]\<rparr>"

lemmas ex_defs = proc_of_def free_resource_def ex_idle_def ex_free_def ex_held_def
  ex_waiting_def in_table_def get_resource_def

section \<open>Basic facts about the store and the resource table\<close>

lemma in_table_nat: "in_table rid s \<Longrightarrow> nat rid < length (resources s)"
  by (auto simp: in_table_def)

lemma get_put_resource [simp]:
  "in_table rid s \<Longrightarrow> get_resource rid (put_resource rid r s) = r"
  by (simp add: in_table_nat get_resource_def put_resource_def)

lemma in_table_put [simp]: "in_table rid (put_resource rid' r s) = in_table rid s"
  by (simp add: in_table_def put_resource_def)

lemma put_resource_fields [simp]:
  "procs (put_resource rid r s) = procs s"
  "current (put_resource rid r s) = current s"
  "readyqueue (put_resource rid r s) = readyqueue s"
  by (simp_all add: put_resource_def)

lemma get_resource_upd [simp]:
  "get_resource rid (s\<lparr>readyqueue := q\<rparr>) = get_resource rid s"
  "get_resource rid (s\<lparr>procs := ps\<rparr>) = get_resource rid s"
  "in_table rid (s\<lparr>readyqueue := q\<rparr>) = in_table rid s"
  "in_table rid (s\<lparr>procs := ps\<rparr>) = in_table rid s"
  by (simp_all add: get_resource_def in_table_def)

lemma set_status_fields [simp]:
  "current (set_status p st s) = current s"
  "readyqueue (set_status p st s) = readyqueue s"
  "get_resource rid (set_status p st s) = get_resource rid s"
  "in_table rid (set_status p st s) = in_table rid s"
  "status (procs (set_status p st s) p) = st"
  "q \<noteq> p \<Longrightarrow> procs (set_status p st s) q = procs s q"
  "prio (procs (set_status p st s) q) = prio (procs s q)"
  "prio_orig (procs (set_status p st s) q) = prio_orig (procs s q)"
  by (simp_all add: set_status_def get_resource_def in_table_def)

lemma set_prio_fields [simp]:
  "current (set_prio p v s) = current s"
  "readyqueue (set_prio p v s) = readyqueue s"
  "get_resource rid (set_prio p v s) = get_resource rid s"
  "in_table rid (set_prio p v s) = in_table rid s"
  "prio (procs (set_prio p v s) p) = v"
  "q \<noteq> p \<Longrightarrow> procs (set_prio p v s) q = procs s q"
  "status (procs (set_prio p v s) q) = status (procs s q)"
  "prio_orig (procs (set_prio p v s) q) = prio_orig (procs s q)"
  by (simp_all add: set_prio_def get_resource_def in_table_def)

section \<open>The scans\<close>

lemma highest_loop_first_max:
  "first_max ps pre h \<Longrightarrow> first_max ps (pre @ xs) (highest_loop ps h xs)"
proof (induction xs arbitrary: pre h)
  case Nil
  then show ?case by simp
next
  case (Cons t ts)
  from Cons.prems obtain ys zs where d: "pre = ys @ h # zs"
    "\<forall>y\<in>set ys. prio (ps y) < prio (ps h)" "\<forall>z\<in>set zs. prio (ps z) \<le> prio (ps h)"
    by blast
  have "first_max ps (pre @ [t]) (if prio (ps h) < prio (ps t) then t else h)"
  proof (cases "prio (ps h) < prio (ps t)")
    case True
    have "\<forall>y\<in>set pre. prio (ps y) < prio (ps t)"
      using d True by (auto intro: less_trans le_less_trans)
    then have "first_max ps (pre @ [t]) t"
      by (intro exI[of _ pre] exI[of _ "[]"]) simp
    with True show ?thesis by simp
  next
    case False
    then have "prio (ps t) \<le> prio (ps h)" by simp
    then have "first_max ps (pre @ [t]) h"
      using d by (intro exI[of _ ys] exI[of _ "zs @ [t]"]) auto
    with False show ?thesis by simp
  qed
  from Cons.IH[OF this] show ?case by simp
qed

lemma highest_of_first_max:
  assumes "q \<noteq> []"
  shows "\<exists>w. highest_of ps q = Some w \<and> first_max ps q w"
proof -
  from assms obtain x xs where q: "q = x # xs" by (cases q) auto
  have "first_max ps [x] x" by (intro exI[of _ "[]"]) simp
  from highest_loop_first_max[OF this, of xs]
  have "first_max ps (x # xs) (highest_loop ps x xs)" by simp
  then show ?thesis by (simp add: highest_of_def q)
qed

lemma highest_of_upper:
  assumes "highest_of ps q = Some h"
  shows "h \<in> set q \<and> (\<forall>x\<in>set q. prio (ps x) \<le> prio (ps h))"
proof -
  from assms have "q \<noteq> []" by (auto simp: highest_of_def)
  from highest_of_first_max[OF this, of ps] assms
  obtain ys zs where "q = ys @ h # zs" "\<forall>y\<in>set ys. prio (ps y) < prio (ps h)"
    "\<forall>z\<in>set zs. prio (ps z) \<le> prio (ps h)" by auto
  then show ?thesis by (auto intro: less_imp_le)
qed

section \<open>Waking a waiter\<close>

lemma wake_ok:
  assumes "in_table rid s" "status (procs s w) = PROCESS_BLOCKED"
  shows "\<exists>s'. wake rid w s = Inr s' \<and> status (procs s' w) = PROCESS_READY
     \<and> waitqueue (get_resource rid s') = remove1 w (waitqueue (get_resource rid s))
     \<and> owner (get_resource rid s') = owner (get_resource rid s)
     \<and> (\<forall>q. q \<noteq> w \<longrightarrow> procs s' q = procs s q)
     \<and> (\<forall>q. prio (procs s' q) = prio (procs s q))
     \<and> readyqueue s' = readyqueue s @ [w]"
  using assms by (simp add: wake_def Let_def)

lemma wake_highest_ok:
  assumes tab: "in_table rid s"
    and ne: "waitqueue (get_resource rid s) \<noteq> []"
    and bl: "\<forall>x\<in>set (waitqueue (get_resource rid s)). status (procs s x) = PROCESS_BLOCKED"
  shows "\<exists>s' w ys zs. wake_highest rid s = Inr s'
     \<and> waitqueue (get_resource rid s) = ys @ w # zs
     \<and> (\<forall>y\<in>set ys. prio (procs s y) < prio (procs s w))
     \<and> (\<forall>z\<in>set zs. prio (procs s z) \<le> prio (procs s w))
     \<and> status (procs s' w) = PROCESS_READY
     \<and> waitqueue (get_resource rid s') = ys @ zs
     \<and> owner (get_resource rid s') = owner (get_resource rid s)
     \<and> (\<forall>q. q \<noteq> w \<longrightarrow> procs s' q = procs s q)
     \<and> (\<forall>q. prio (procs s' q) = prio (procs s q))
     \<and> readyqueue s' = readyqueue s @ [w]"
proof -
  let ?wq = "waitqueue (get_resource rid s)"
  from highest_of_first_max[OF ne, of "procs s"] obtain w ys zs where
    w: "highest_of (procs s) ?wq = Some w" and d: "?wq = ys @ w # zs"
    and lt: "\<forall>y\<in>set ys. prio (procs s y) < prio (procs s w)"
    and le: "\<forall>z\<in>set zs. prio (procs s z) \<le> prio (procs s w)" by blast
  from d bl have "status (procs s w) = PROCESS_BLOCKED" by simp
  from wake_ok[OF tab this] obtain s' where s': "wake rid w s = Inr s'"
    "status (procs s' w) = PROCESS_READY"
    "waitqueue (get_resource rid s') = remove1 w ?wq"
    "owner (get_resource rid s') = owner (get_resource rid s)"
    "\<forall>q. q \<noteq> w \<longrightarrow> procs s' q = procs s q"
    "\<forall>q. prio (procs s' q) = prio (procs s q)"
    "readyqueue s' = readyqueue s @ [w]" by blast
  have "w \<notin> set ys" using lt by auto
  then have "remove1 w ?wq = ys @ zs" by (simp add: d remove1_append)
  moreover have "wake_highest rid s = Inr s'"
    using ne w s'(1) by (simp add: wake_highest_def get_highest_prio_wait_def)
  ultimately show ?thesis using d lt le s' by metis
qed

lemma wake_highest_none:
  "waitqueue (get_resource rid s) = [] \<Longrightarrow> wake_highest rid s = Inr s"
  by (simp add: wake_highest_def)

lemma prio_release_ok:
  assumes tab: "in_table rid s" and ow: "owner (get_resource rid s) = current s"
    and ne: "waitqueue (get_resource rid s) \<noteq> []"
    and bl: "\<forall>x\<in>set (waitqueue (get_resource rid s)). status (procs s x) = PROCESS_BLOCKED"
  shows "\<exists>s' w ys zs. prio_release rid s = Inr s'
     \<and> waitqueue (get_resource rid s) = ys @ w # zs
     \<and> (\<forall>y\<in>set ys. prio (procs s y) < prio (procs s w))
     \<and> (\<forall>z\<in>set zs. prio (procs s z) \<le> prio (procs s w))
     \<and> status (procs s' w) = PROCESS_READY
     \<and> waitqueue (get_resource rid s') = ys @ zs
     \<and> owner (get_resource rid s') = None
     \<and> (\<forall>q. q \<noteq> w \<longrightarrow> procs s' q = procs s q)
     \<and> readyqueue s' = readyqueue s @ [w]"
proof -
  let ?s1 = "put_resource rid ((get_resource rid s)\<lparr>owner := None\<rparr>) s"
  have 1: "in_table rid ?s1" "waitqueue (get_resource rid ?s1) \<noteq> []"
    "\<forall>x\<in>set (waitqueue (get_resource rid ?s1)). status (procs ?s1 x) = PROCESS_BLOCKED"
    using tab ne bl by simp_all
  have rel: "prio_release rid s = wake_highest rid ?s1"
    using tab ow by (simp add: prio_release_def Let_def)
  from wake_highest_ok[OF 1] have "\<exists>s' w ys zs. wake_highest rid ?s1 = Inr s'
     \<and> waitqueue (get_resource rid s) = ys @ w # zs
     \<and> (\<forall>y\<in>set ys. prio (procs s y) < prio (procs s w))
     \<and> (\<forall>z\<in>set zs. prio (procs s z) \<le> prio (procs s w))
     \<and> status (procs s' w) = PROCESS_READY
     \<and> waitqueue (get_resource rid s') = ys @ zs
     \<and> owner (get_resource rid s') = None
     \<and> (\<forall>q. q \<noteq> w \<longrightarrow> procs s' q = procs s q)
     \<and> (\<forall>q. prio (procs s' q) = prio (procs s q))
     \<and> readyqueue s' = readyqueue s @ [w]"
    using tab by simp
  then show ?thesis unfolding rel by blast
qed

lemma restore_release_ok:
  assumes tab: "in_table rid s" and cur: "current s = Some c"
    and ow: "owner (get_resource rid s) = Some c"
  shows "\<exists>s1. pcp_release rid s = wake_highest rid s1 \<and> pip_release rid s = wake_highest rid s1
     \<and> in_table rid s1 \<and> owner (get_resource rid s1) = None
     \<and> waitqueue (get_resource rid s1) = waitqueue (get_resource rid s)
     \<and> prio (procs s1 c) = prio_orig (procs s c)
     \<and> (\<forall>q. q \<noteq> c \<longrightarrow> procs s1 q = procs s q)
     \<and> (\<forall>q. status (procs s1 q) = status (procs s q))
     \<and> readyqueue s1 = readyqueue s"
proof -
  let ?s0 = "set_prio c (prio_orig (procs s c)) s"
  let ?s1 = "put_resource rid ((get_resource rid ?s0)\<lparr>owner := None\<rparr>) ?s0"
  have "restore_owner rid s = Inr ?s0" using cur ow by (simp add: restore_owner_def)
  then have "pcp_release rid s = wake_highest rid ?s1" "pip_release rid s = wake_highest rid ?s1"
    using tab cur ow by (simp_all add: pcp_release_def pip_release_def Let_def)
  then show ?thesis using tab by (intro exI[of _ ?s1]) simp
qed

lemma ceiling_release_ok:
  assumes rel: "rel = pcp_release \<or> rel = pip_release"
    and tab: "in_table rid s" and cur: "current s = Some c"
    and ow: "owner (get_resource rid s) = Some c"
    and ne: "waitqueue (get_resource rid s) \<noteq> []"
    and notin: "c \<notin> set (waitqueue (get_resource rid s))"
    and bl: "\<forall>x\<in>set (waitqueue (get_resource rid s)). status (procs s x) = PROCESS_BLOCKED"
  shows "\<exists>s' w ys zs. rel rid s = Inr s'
     \<and> waitqueue (get_resource rid s) = ys @ w # zs
     \<and> (\<forall>y\<in>set ys. prio (procs s y) < prio (procs s w))
     \<and> (\<forall>z\<in>set zs. prio (procs s z) \<le> prio (procs s w))
     \<and> status (procs s' w) = PROCESS_READY
     \<and> waitqueue (get_resource rid s') = ys @ zs
     \<and> owner (get_resource rid s') = None
     \<and> prio (procs s' c) = prio_orig (procs s c)
     \<and> (\<forall>q. q \<noteq> w \<longrightarrow> status (procs s' q) = status (procs s q))
     \<and> readyqueue s' = readyqueue s @ [w]"
proof -
  let ?wq = "waitqueue (get_resource rid s)"
  from restore_release_ok[OF tab cur ow] obtain s1 where s1:
    "pcp_release rid s = wake_highest rid s1" "pip_release rid s = wake_highest rid s1"
    "in_table rid s1" "owner (get_resource rid s1) = None"
    "waitqueue (get_resource rid s1) = ?wq"
    "prio (procs s1 c) = prio_orig (procs s c)"
    "\<forall>q. q \<noteq> c \<longrightarrow> procs s1 q = procs s q"
    "\<forall>q. status (procs s1 q) = status (procs s q)"
    "readyqueue s1 = readyqueue s" by blast
  have same: "procs s1 x = procs s x" if "x \<in> set ?wq" for x
    using that notin s1(7) by auto
  have 1: "waitqueue (get_resource rid s1) \<noteq> []"
    "\<forall>x\<in>set (waitqueue (get_resource rid s1)). status (procs s1 x) = PROCESS_BLOCKED"
    using ne bl s1(5,8) by simp_all
  from wake_highest_ok[OF s1(3) 1] obtain s' w ys zs where r:
    "wake_highest rid s1 = Inr s'" "?wq = ys @ w # zs"
    "\<forall>y\<in>set ys. prio (procs s1 y) < prio (procs s1 w)"
    "\<forall>z\<in>set zs. prio (procs s1 z) \<le> prio (procs s1 w)"
    "status (procs s' w) = PROCESS_READY"
    "waitqueue (get_resource rid s') = ys @ zs"
    "owner (get_resource rid s') = owner (get_resource rid s1)"
    "\<forall>q. q \<noteq> w \<longrightarrow> procs s' q = procs s1 q"
    "\<forall>q. prio (procs s' q) = prio (procs s1 q)"
    "readyqueue s' = readyqueue s1 @ [w]"
    unfolding s1(5) by blast
  have w: "procs s1 w = procs s w" using same r(2) by simp
  have "\<forall>y\<in>set ys. prio (procs s y) < prio (procs s w)"
    using r(3) same r(2) w by simp
  moreover have "\<forall>z\<in>set zs. prio (procs s z) \<le> prio (procs s w)"
    using r(4) same r(2) w by simp
  moreover have "rel rid s = Inr s'" using rel s1(1,2) r(1) by auto
  moreover have "prio (procs s' c) = prio_orig (procs s c)" using r(9) s1(6) by simp
  moreover have "\<forall>q. q \<noteq> w \<longrightarrow> status (procs s' q) = status (procs s q)"
    using r(8) s1(8) by simp
  ultimately show ?thesis using r(2,5,6,7,10) s1(4,9) by metis
qed

section \<open>FCFS\<close>

lemma fcfs_acquire_free:
  assumes "in_table rid s" "current s = Some c" "owner (get_resource rid s) = None"
  shows "\<exists>s'. fcfs_acquire rid s = Inr (True, s') \<and> owner (get_resource rid s') = Some c
     \<and> waitqueue (get_resource rid s') = waitqueue (get_resource rid s)
     \<and> procs s' = procs s \<and> readyqueue s' = readyqueue s"
  using assms by (simp add: fcfs_acquire_def)

lemma block_current_ok:
  assumes "in_table rid s" "current s = Some c"
  shows "\<exists>s'. block_current rid s = Inr s' \<and> status (procs s' c) = PROCESS_BLOCKED
     \<and> waitqueue (get_resource rid s') = waitqueue (get_resource rid s) @ [c]
     \<and> owner (get_resource rid s') = owner (get_resource rid s)
     \<and> (\<forall>q. q \<noteq> c \<longrightarrow> procs s' q = procs s q)
     \<and> (\<forall>q. prio (procs s' q) = prio (procs s q))
     \<and> readyqueue s' = readyqueue s \<and> current s' = Some c \<and> in_table rid s'"
  using assms by (simp add: block_current_def Let_def)

lemma fcfs_acquire_owned:
  assumes "in_table rid s" "current s = Some c" "owner (get_resource rid s) \<noteq> None"
  shows "\<exists>s'. fcfs_acquire rid s = Inr (False, s') \<and> status (procs s' c) = PROCESS_BLOCKED
     \<and> waitqueue (get_resource rid s') = waitqueue (get_resource rid s) @ [c]
     \<and> owner (get_resource rid s') = owner (get_resource rid s)
     \<and> (\<forall>q. q \<noteq> c \<longrightarrow> procs s' q = procs s q) \<and> readyqueue s' = readyqueue s"
proof -
  from block_current_ok[OF assms(1,2)] obtain s1 where
    "block_current rid s = Inr s1" "status (procs s1 c) = PROCESS_BLOCKED"
    "waitqueue (get_resource rid s1) = waitqueue (get_resource rid s) @ [c]"
    "owner (get_resource rid s1) = owner (get_resource rid s)"
    "\<forall>q. q \<noteq> c \<longrightarrow> procs s1 q = procs s q" "readyqueue s1 = readyqueue s" by blast
  then show ?thesis using assms by (simp add: fcfs_acquire_def Let_def)
qed

lemma fcfs_release_wait:
  assumes "in_table rid s" "owner (get_resource rid s) = current s"
   "waitqueue (get_resource rid s) = w # ws" "status (procs s w) = PROCESS_BLOCKED"
  shows "\<exists>s'. fcfs_release rid s = Inr s' \<and> owner (get_resource rid s') = None
     \<and> waitqueue (get_resource rid s') = ws
     \<and> status (procs s' w) = PROCESS_READY
     \<and> (\<forall>q. q \<noteq> w \<longrightarrow> procs s' q = procs s q)
     \<and> readyqueue s' = readyqueue s @ [w]"
proof -
  let ?s1 = "put_resource rid ((get_resource rid s)\<lparr>owner := None\<rparr>) s"
  have "in_table rid ?s1" "status (procs ?s1 w) = PROCESS_BLOCKED" using assms by simp_all
  from wake_ok[OF this] obtain s' where
    "wake rid w ?s1 = Inr s'" "status (procs s' w) = PROCESS_READY"
    "waitqueue (get_resource rid s') = remove1 w (waitqueue (get_resource rid ?s1))"
    "owner (get_resource rid s') = owner (get_resource rid ?s1)"
    "\<forall>q. q \<noteq> w \<longrightarrow> procs s' q = procs ?s1 q"
    "readyqueue s' = readyqueue ?s1 @ [w]" by blast
  then show ?thesis using assms by (simp add: fcfs_release_def Let_def)
qed

lemma fcfs_release_nowait:
  assumes "in_table rid s" "owner (get_resource rid s) = current s"
   "waitqueue (get_resource rid s) = []"
  shows "\<exists>s'. fcfs_release rid s = Inr s' \<and> owner (get_resource rid s') = None
     \<and> waitqueue (get_resource rid s') = []
     \<and> procs s' = procs s
     \<and> readyqueue s' = readyqueue s"
  using assms by (simp add: fcfs_release_def Let_def)

text \<open>
  C6.  With a resource id inside the table and a current process \<open>c\<close>:
  \<^verbatim>\<open>fcfs_acquire\<close> on an unowned resource makes \<open>c\<close> the owner and returns true, changing
  nothing else; on an owned resource it sets the status of \<open>c\<close> to \<open>PROCESS_BLOCKED\<close>, appends
  \<open>c\<close> at the tail of the waitqueue and returns false, the owner staying as it was;
  \<^verbatim>\<open>fcfs_release\<close> by the owner \<open>c\<close> clears the owner and, when the waitqueue is \<open>w # ws\<close>
  (its head \<open>w\<close> blocked, as the assertion demands), leaves \<open>ws\<close> waiting, makes \<open>w\<close> ready and
  appends it at the tail of the readyqueue; the resource has no owner afterwards.  With an
  empty waitqueue only the owner is cleared.
\<close>

theorem fcfs_arbitration:
  assumes "in_table rid s" and "current s = Some c"
  shows "(owner (get_resource rid s) = None \<longrightarrow>
           (\<exists>s'. fcfs_acquire rid s = Inr (True, s') \<and> owner (get_resource rid s') = Some c
              \<and> waitqueue (get_resource rid s') = waitqueue (get_resource rid s)
              \<and> procs s' = procs s \<and> readyqueue s' = readyqueue s))
       \<and> (owner (get_resource rid s) \<noteq> None \<longrightarrow>
           (\<exists>s'. fcfs_acquire rid s = Inr (False, s') \<and> status (procs s' c) = PROCESS_BLOCKED
              \<and> waitqueue (get_resource rid s') = waitqueue (get_resource rid s) @ [c]
              \<and> owner (get_resource rid s') = owner (get_resource rid s)
              \<and> (\<forall>q. q \<noteq> c \<longrightarrow> procs s' q = procs s q) \<and> readyqueue s' = readyqueue s))
       \<and> (owner (get_resource rid s) = Some c \<longrightarrow>
           (waitqueue (get_resource rid s) = [] \<longrightarrow>
              (\<exists>s'. fcfs_release rid s = Inr s' \<and> owner (get_resource rid s') = None
                 \<and> waitqueue (get_resource rid s') = []
                 \<and> procs s' = procs s \<and> readyqueue s' = readyqueue s))
         \<and> (\<forall>w ws. waitqueue (get_resource rid s) = w # ws
                 \<and> status (procs s w) = PROCESS_BLOCKED \<longrightarrow>
              (\<exists>s'. fcfs_release rid s = Inr s' \<and> owner (get_resource rid s') = None
                 \<and> waitqueue (get_resource rid s') = ws
                 \<and> status (procs s' w) = PROCESS_READY
                 \<and> (\<forall>q. q \<noteq> w \<longrightarrow> procs s' q = procs s q)
                 \<and> readyqueue s' = readyqueue s @ [w])))"
proof (intro conjI impI allI)
  assume "owner (get_resource rid s) = None"
  from fcfs_acquire_free[OF assms this]
  show "\<exists>s'. fcfs_acquire rid s = Inr (True, s') \<and> owner (get_resource rid s') = Some c
              \<and> waitqueue (get_resource rid s') = waitqueue (get_resource rid s)
              \<and> procs s' = procs s \<and> readyqueue s' = readyqueue s" .
next
  assume "owner (get_resource rid s) \<noteq> None"
  from fcfs_acquire_owned[OF assms this]
  show "\<exists>s'. fcfs_acquire rid s = Inr (False, s') \<and> status (procs s' c) = PROCESS_BLOCKED
              \<and> waitqueue (get_resource rid s') = waitqueue (get_resource rid s) @ [c]
              \<and> owner (get_resource rid s') = owner (get_resource rid s)
              \<and> (\<forall>q. q \<noteq> c \<longrightarrow> procs s' q = procs s q) \<and> readyqueue s' = readyqueue s" .
next
  assume "owner (get_resource rid s) = Some c" "waitqueue (get_resource rid s) = []"
  with assms have "owner (get_resource rid s) = current s" by simp
  from fcfs_release_nowait[OF assms(1) this \<open>waitqueue (get_resource rid s) = []\<close>]
  show "\<exists>s'. fcfs_release rid s = Inr s' \<and> owner (get_resource rid s') = None
                 \<and> waitqueue (get_resource rid s') = []
                 \<and> procs s' = procs s \<and> readyqueue s' = readyqueue s" .
next
  fix w ws
  assume o: "owner (get_resource rid s) = Some c"
    and w: "waitqueue (get_resource rid s) = w # ws \<and> status (procs s w) = PROCESS_BLOCKED"
  from o assms have "owner (get_resource rid s) = current s" by simp
  from fcfs_release_wait[OF assms(1) this conjunct1[OF w] conjunct2[OF w]]
  show "\<exists>s'. fcfs_release rid s = Inr s' \<and> owner (get_resource rid s') = None
                 \<and> waitqueue (get_resource rid s') = ws
                 \<and> status (procs s' w) = PROCESS_READY
                 \<and> (\<forall>q. q \<noteq> w \<longrightarrow> procs s' q = procs s q)
                 \<and> readyqueue s' = readyqueue s @ [w]" .
qed

theorem fcfs_arbitration_witness:
  "(in_table 0 ex_free \<and> current ex_free = Some 1 \<and> owner (get_resource 0 ex_free) = None
      \<and> (\<exists>s'. fcfs_acquire 0 ex_free = Inr (True, s') \<and> owner (get_resource 0 s') = Some 1))
   \<and> (in_table 0 ex_held \<and> current ex_held = Some 2 \<and> owner (get_resource 0 ex_held) \<noteq> None
      \<and> (\<exists>s'. fcfs_acquire 0 ex_held = Inr (False, s') \<and> status (procs s' 2) = PROCESS_BLOCKED
            \<and> waitqueue (get_resource 0 s') = [2]))
   \<and> (in_table 0 ex_waiting \<and> current ex_waiting = Some 1
      \<and> owner (get_resource 0 ex_waiting) = Some 1
      \<and> waitqueue (get_resource 0 ex_waiting) = [2, 3, 4]
      \<and> status (procs ex_waiting 2) = PROCESS_BLOCKED
      \<and> (\<exists>s'. fcfs_release 0 ex_waiting = Inr s' \<and> owner (get_resource 0 s') = None
            \<and> waitqueue (get_resource 0 s') = [3, 4] \<and> status (procs s' 2) = PROCESS_READY
            \<and> readyqueue s' = [2]))"
proof -
  have a: "in_table 0 ex_free" "current ex_free = Some 1" "owner (get_resource 0 ex_free) = None"
    by (simp_all add: ex_defs)
  have b: "in_table 0 ex_held" "current ex_held = Some 2" "owner (get_resource 0 ex_held) \<noteq> None"
    "waitqueue (get_resource 0 ex_held) = []"
    by (simp_all add: ex_defs)
  have c: "in_table 0 ex_waiting" "current ex_waiting = Some 1"
    "owner (get_resource 0 ex_waiting) = Some 1"
    "waitqueue (get_resource 0 ex_waiting) = [2, 3, 4]"
    "status (procs ex_waiting 2) = PROCESS_BLOCKED" "readyqueue ex_waiting = []"
    by (simp_all add: ex_defs)
  from fcfs_arbitration[OF a(1,2)] a(3)
  have 1: "\<exists>s'. fcfs_acquire 0 ex_free = Inr (True, s') \<and> owner (get_resource 0 s') = Some 1"
    by blast
  from fcfs_arbitration[OF b(1,2)] b(3,4)
  have 2: "\<exists>s'. fcfs_acquire 0 ex_held = Inr (False, s') \<and> status (procs s' 2) = PROCESS_BLOCKED
            \<and> waitqueue (get_resource 0 s') = [2]"
    by auto
  from fcfs_arbitration[OF c(1,2)] c(3,4,5,6)
  have 3: "\<exists>s'. fcfs_release 0 ex_waiting = Inr s' \<and> owner (get_resource 0 s') = None
            \<and> waitqueue (get_resource 0 s') = [3, 4] \<and> status (procs s' 2) = PROCESS_READY
            \<and> readyqueue s' = [2]"
    by auto
  from a b(1,2,3) c(1-5) 1 2 3 show ?thesis by blast
qed

text \<open>
  C5.  A priority-aware release (\<^verbatim>\<open>prio_release\<close>, which Priority and Priority+Aging
  install, \<^verbatim>\<open>pcp_release\<close>, \<^verbatim>\<open>pip_release\<close>) by the owner \<open>c\<close>, the current process and
  itself not waiting, on a resource whose waitqueue is not empty and holds blocked processes
  only: the waitqueue splits as \<open>ys @ w # zs\<close> with every priority in \<open>ys\<close> strictly below
  and every priority in \<open>zs\<close> at most that of \<open>w\<close> (so \<open>w\<close> is the first waiter of greatest
  priority); \<open>w\<close> goes from blocked to ready, leaves the waitqueue, which becomes \<open>ys @ zs\<close>,
  and is appended at the tail of the readyqueue; the status of every other process is
  unchanged.
\<close>

theorem release_wakes_first_highest_waiter:
  assumes "rel = prio_release \<or> rel = pcp_release \<or> rel = pip_release"
    and "in_table rid s" and "current s = Some c"
    and "owner (get_resource rid s) = Some c"
    and "waitqueue (get_resource rid s) \<noteq> []"
    and "c \<notin> set (waitqueue (get_resource rid s))"
    and "\<forall>x\<in>set (waitqueue (get_resource rid s)). status (procs s x) = PROCESS_BLOCKED"
  shows "\<exists>s' w ys zs. rel rid s = Inr s'
     \<and> waitqueue (get_resource rid s) = ys @ w # zs
     \<and> (\<forall>y\<in>set ys. prio (procs s y) < prio (procs s w))
     \<and> (\<forall>z\<in>set zs. prio (procs s z) \<le> prio (procs s w))
     \<and> status (procs s w) = PROCESS_BLOCKED
     \<and> status (procs s' w) = PROCESS_READY
     \<and> (\<forall>q. q \<noteq> w \<longrightarrow> status (procs s' q) = status (procs s q))
     \<and> waitqueue (get_resource rid s') = ys @ zs
     \<and> readyqueue s' = readyqueue s @ [w]"
proof (cases "rel = prio_release")
  case True
  have "owner (get_resource rid s) = current s" using assms(3,4) by simp
  from prio_release_ok[OF assms(2) this assms(5,7)] obtain s' w ys zs where r:
    "prio_release rid s = Inr s'" "waitqueue (get_resource rid s) = ys @ w # zs"
    "\<forall>y\<in>set ys. prio (procs s y) < prio (procs s w)"
    "\<forall>z\<in>set zs. prio (procs s z) \<le> prio (procs s w)"
    "status (procs s' w) = PROCESS_READY"
    "waitqueue (get_resource rid s') = ys @ zs"
    "\<forall>q. q \<noteq> w \<longrightarrow> procs s' q = procs s q"
    "readyqueue s' = readyqueue s @ [w]" by blast
  have "status (procs s w) = PROCESS_BLOCKED" using assms(7) r(2) by simp
  moreover have "\<forall>q. q \<noteq> w \<longrightarrow> status (procs s' q) = status (procs s q)" using r(7) by simp
  ultimately show ?thesis using True r(1-6,8) by blast
next
  case False
  with assms(1) have "rel = pcp_release \<or> rel = pip_release" by simp
  from ceiling_release_ok[OF this assms(2-7)] obtain s' w ys zs where r:
    "rel rid s = Inr s'" "waitqueue (get_resource rid s) = ys @ w # zs"
    "\<forall>y\<in>set ys. prio (procs s y) < prio (procs s w)"
    "\<forall>z\<in>set zs. prio (procs s z) \<le> prio (procs s w)"
    "status (procs s' w) = PROCESS_READY"
    "waitqueue (get_resource rid s') = ys @ zs"
    "\<forall>q. q \<noteq> w \<longrightarrow> status (procs s' q) = status (procs s q)"
    "readyqueue s' = readyqueue s @ [w]" by blast
  have "status (procs s w) = PROCESS_BLOCKED" using assms(7) r(2) by simp
  then show ?thesis using r by blast
qed

theorem release_wakes_first_highest_waiter_witness:
  "in_table 0 ex_waiting \<and> current ex_waiting = Some 1
   \<and> owner (get_resource 0 ex_waiting) = Some 1
   \<and> waitqueue (get_resource 0 ex_waiting) = [2, 3, 4]
   \<and> status (procs ex_waiting 2) = PROCESS_BLOCKED
   \<and> status (procs ex_waiting 3) = PROCESS_BLOCKED
   \<and> status (procs ex_waiting 4) = PROCESS_BLOCKED
   \<and> (\<exists>s' w. prio_release 0 ex_waiting = Inr s' \<and> w \<in> {2, 3, 4}
          \<and> status (procs s' w) = PROCESS_READY \<and> readyqueue s' = [w])
   \<and> (\<exists>s' w. pcp_release 0 ex_waiting = Inr s' \<and> w \<in> {2, 3, 4}
          \<and> status (procs s' w) = PROCESS_READY \<and> readyqueue s' = [w])
   \<and> (\<exists>s' w. pip_release 0 ex_waiting = Inr s' \<and> w \<in> {2, 3, 4}
          \<and> status (procs s' w) = PROCESS_READY \<and> readyqueue s' = [w])"
proof -
  have q: "waitqueue (get_resource 0 ex_waiting) = [2, 3, 4]" "readyqueue ex_waiting = []"
    by (simp_all add: ex_defs)
  have b: "status (procs ex_waiting 2) = PROCESS_BLOCKED"
    "status (procs ex_waiting 3) = PROCESS_BLOCKED"
    "status (procs ex_waiting 4) = PROCESS_BLOCKED"
    by (simp_all add: ex_defs)
  have h: "in_table 0 ex_waiting" "current ex_waiting = Some 1"
    "owner (get_resource 0 ex_waiting) = Some 1"
    "waitqueue (get_resource 0 ex_waiting) \<noteq> []"
    "1 \<notin> set (waitqueue (get_resource 0 ex_waiting))"
    "\<forall>x\<in>set (waitqueue (get_resource 0 ex_waiting)). status (procs ex_waiting x) = PROCESS_BLOCKED"
    using b by (simp_all add: q) (simp_all add: ex_defs)
  have "\<exists>s' w. rel 0 ex_waiting = Inr s' \<and> w \<in> {2, 3, 4}
          \<and> status (procs s' w) = PROCESS_READY \<and> readyqueue s' = [w]"
    if "rel = prio_release \<or> rel = pcp_release \<or> rel = pip_release" for rel
  proof -
    from release_wakes_first_highest_waiter[OF that h] obtain s' w ys zs where r:
      "rel 0 ex_waiting = Inr s'" "waitqueue (get_resource 0 ex_waiting) = ys @ w # zs"
      "status (procs s' w) = PROCESS_READY" "readyqueue s' = readyqueue ex_waiting @ [w]"
      by blast
    from r(2) have "w \<in> set (waitqueue (get_resource 0 ex_waiting))" by simp
    then have "w \<in> {2, 3, 4}" by (simp add: q)
    with r show ?thesis unfolding q by (intro exI[of _ s'] exI[of _ w]) simp
  qed
  from this[of prio_release] this[of pcp_release] this[of pip_release] h(1-3) q(1) b
  show ?thesis by simp
qed

text \<open>
  C4.  \<^verbatim>\<open>pcp_acquire\<close> by the current process \<open>c\<close> on an unowned resource returns true,
  makes \<open>c\<close> the owner and sets its priority to \<open>MAX_PRIO\<close>, leaving \<open>prio_orig\<close> alone.
  \<^verbatim>\<open>pcp_release\<close> by the owner \<open>c\<close> (current, not itself waiting, the waiters blocked) sets
  the priority of \<open>c\<close> back to its \<open>prio_orig\<close> and clears the owner; the write goes through
  \<^verbatim>\<open>r->owner\<close>, so it comes first, and the call does not fault.  Then, if the waitqueue
  is not empty, its first waiter of greatest priority is made ready, removed from the
  waitqueue and appended to the readyqueue; if it is empty, both queues stay as they are.
\<close>

theorem pcp_ceiling_protocol:
  assumes "in_table rid s" and "current s = Some c"
  shows "(owner (get_resource rid s) = None \<longrightarrow>
           (\<exists>s'. pcp_acquire MAX_PRIO rid s = Inr (True, s')
              \<and> owner (get_resource rid s') = Some c
              \<and> prio (procs s' c) = MAX_PRIO
              \<and> prio_orig (procs s' c) = prio_orig (procs s c)))
       \<and> (owner (get_resource rid s) = Some c \<and> c \<notin> set (waitqueue (get_resource rid s))
            \<and> (\<forall>x\<in>set (waitqueue (get_resource rid s)). status (procs s x) = PROCESS_BLOCKED) \<longrightarrow>
           (\<exists>s'. pcp_release rid s = Inr s'
              \<and> prio (procs s' c) = prio_orig (procs s c)
              \<and> owner (get_resource rid s') = None
              \<and> (waitqueue (get_resource rid s) = [] \<longrightarrow>
                    waitqueue (get_resource rid s') = [] \<and> readyqueue s' = readyqueue s)
              \<and> (waitqueue (get_resource rid s) \<noteq> [] \<longrightarrow>
                    (\<exists>w ys zs. waitqueue (get_resource rid s) = ys @ w # zs
                       \<and> (\<forall>y\<in>set ys. prio (procs s y) < prio (procs s w))
                       \<and> (\<forall>z\<in>set zs. prio (procs s z) \<le> prio (procs s w))
                       \<and> status (procs s' w) = PROCESS_READY
                       \<and> waitqueue (get_resource rid s') = ys @ zs
                       \<and> readyqueue s' = readyqueue s @ [w]))))"
proof (intro conjI impI)
  assume "owner (get_resource rid s) = None"
  with assms show "\<exists>s'. pcp_acquire MAX_PRIO rid s = Inr (True, s')
              \<and> owner (get_resource rid s') = Some c
              \<and> prio (procs s' c) = MAX_PRIO
              \<and> prio_orig (procs s' c) = prio_orig (procs s c)"
    by (simp add: pcp_acquire_def Let_def)
next
  let ?wq = "waitqueue (get_resource rid s)"
  assume a: "owner (get_resource rid s) = Some c \<and> c \<notin> set ?wq
            \<and> (\<forall>x\<in>set ?wq. status (procs s x) = PROCESS_BLOCKED)"
  then have ow: "owner (get_resource rid s) = Some c" and notin: "c \<notin> set ?wq"
    and bl: "\<forall>x\<in>set ?wq. status (procs s x) = PROCESS_BLOCKED" by simp_all
  show "\<exists>s'. pcp_release rid s = Inr s'
              \<and> prio (procs s' c) = prio_orig (procs s c)
              \<and> owner (get_resource rid s') = None
              \<and> (?wq = [] \<longrightarrow> waitqueue (get_resource rid s') = [] \<and> readyqueue s' = readyqueue s)
              \<and> (?wq \<noteq> [] \<longrightarrow>
                    (\<exists>w ys zs. ?wq = ys @ w # zs
                       \<and> (\<forall>y\<in>set ys. prio (procs s y) < prio (procs s w))
                       \<and> (\<forall>z\<in>set zs. prio (procs s z) \<le> prio (procs s w))
                       \<and> status (procs s' w) = PROCESS_READY
                       \<and> waitqueue (get_resource rid s') = ys @ zs
                       \<and> readyqueue s' = readyqueue s @ [w]))"
  proof (cases "?wq = []")
    case True
    from restore_release_ok[OF assms ow] obtain s1 where s1:
      "pcp_release rid s = wake_highest rid s1" "owner (get_resource rid s1) = None"
      "waitqueue (get_resource rid s1) = ?wq" "prio (procs s1 c) = prio_orig (procs s c)"
      "readyqueue s1 = readyqueue s" by blast
    have "wake_highest rid s1 = Inr s1" using s1(3) True by (simp add: wake_highest_none)
    with s1 True show ?thesis by simp
  next
    case False
    have "pcp_release = pcp_release \<or> pcp_release = pip_release" by simp
    from ceiling_release_ok[OF this assms ow False notin bl] False
    show ?thesis by blast
  qed
qed

theorem pcp_ceiling_protocol_witness:
  "in_table 0 ex_free \<and> current ex_free = Some 1 \<and> owner (get_resource 0 ex_free) = None
   \<and> (\<exists>s'. pcp_acquire 64 0 ex_free = Inr (True, s') \<and> owner (get_resource 0 s') = Some 1
         \<and> prio (procs s' 1) = 64)
   \<and> in_table 0 ex_pcp_owner \<and> current ex_pcp_owner = Some 1
   \<and> owner (get_resource 0 ex_pcp_owner) = Some 1
   \<and> waitqueue (get_resource 0 ex_pcp_owner) = [2, 3, 4]
   \<and> status (procs ex_pcp_owner 2) = PROCESS_BLOCKED
   \<and> status (procs ex_pcp_owner 3) = PROCESS_BLOCKED
   \<and> status (procs ex_pcp_owner 4) = PROCESS_BLOCKED
   \<and> prio (procs ex_pcp_owner 1) = 64 \<and> prio_orig (procs ex_pcp_owner 1) = 2
   \<and> (\<exists>s'. pcp_release 0 ex_pcp_owner = Inr s' \<and> prio (procs s' 1) = 2
         \<and> owner (get_resource 0 s') = None)"
proof -
  have a: "in_table 0 ex_free" "current ex_free = Some 1" "owner (get_resource 0 ex_free) = None"
    by (simp_all add: ex_defs)
  have q: "waitqueue (get_resource 0 ex_pcp_owner) = [2, 3, 4]"
    "status (procs ex_pcp_owner 2) = PROCESS_BLOCKED"
    "status (procs ex_pcp_owner 3) = PROCESS_BLOCKED"
    "status (procs ex_pcp_owner 4) = PROCESS_BLOCKED"
    "prio (procs ex_pcp_owner 1) = 64" "prio_orig (procs ex_pcp_owner 1) = 2"
    by (simp_all add: ex_pcp_owner_def ex_defs)
  have b: "in_table 0 ex_pcp_owner" "current ex_pcp_owner = Some 1"
    "owner (get_resource 0 ex_pcp_owner) = Some 1"
    by (simp_all add: ex_pcp_owner_def ex_defs)
  have c: "1 \<notin> set (waitqueue (get_resource 0 ex_pcp_owner))"
    "\<forall>x\<in>set (waitqueue (get_resource 0 ex_pcp_owner)).
        status (procs ex_pcp_owner x) = PROCESS_BLOCKED"
    using q(2-4) by (simp_all add: q(1))
  from pcp_ceiling_protocol[OF a(1,2), of 64] a(3)
  have 1: "\<exists>s'. pcp_acquire 64 0 ex_free = Inr (True, s') \<and> owner (get_resource 0 s') = Some 1
         \<and> prio (procs s' 1) = 64" by blast
  from pcp_ceiling_protocol[OF b(1,2), of 64] b(3) c
  have "\<exists>s'. pcp_release 0 ex_pcp_owner = Inr s'
         \<and> prio (procs s' 1) = prio_orig (procs ex_pcp_owner 1)
         \<and> owner (get_resource 0 s') = None"
    by blast
  then have 2: "\<exists>s'. pcp_release 0 ex_pcp_owner = Inr s' \<and> prio (procs s' 1) = 2
         \<and> owner (get_resource 0 s') = None"
    by (simp only: q(6))
  from a b q 1 2 show ?thesis by blast
qed

section \<open>Inheritance on contention\<close>

lemma highest_appended_eq:
  assumes "highest_of ps (wq @ [c]) = Some h"
  shows "prio (ps c) = prio (ps h) \<longleftrightarrow> (\<forall>x\<in>set wq. prio (ps x) \<le> prio (ps c))"
proof -
  from highest_of_upper[OF assms]
  have h: "h \<in> set (wq @ [c])" and up: "\<forall>x\<in>set (wq @ [c]). prio (ps x) \<le> prio (ps h)"
    by simp_all
  show ?thesis
  proof
    assume "prio (ps c) = prio (ps h)"
    with up show "\<forall>x\<in>set wq. prio (ps x) \<le> prio (ps c)" by simp
  next
    assume a: "\<forall>x\<in>set wq. prio (ps x) \<le> prio (ps c)"
    from h a have "prio (ps h) \<le> prio (ps c)" by auto
    moreover from up have "prio (ps c) \<le> prio (ps h)" by simp
    ultimately show "prio (ps c) = prio (ps h)" by simp
  qed
qed

text \<open>
  C1, as the code has it.  \<^verbatim>\<open>pip_acquire\<close> by the current process \<open>c\<close> on a resource
  owned by \<open>ow\<close> returns false, sets the status of \<open>c\<close> to \<open>PROCESS_BLOCKED\<close> and appends
  \<open>c\<close> at the tail of the waitqueue.  If no waiter already queued has a priority above that
  of \<open>c\<close>, the owner's priority is overwritten with the priority of \<open>c\<close>; otherwise it is
  left alone.  The owner's priority is therefore not lowered whenever the caller's priority
  is at least the owner's.
\<close>

theorem pip_acquire_contended:
  assumes "in_table rid s" and "current s = Some c"
    and "owner (get_resource rid s) = Some ow"
  shows "\<exists>s'. pip_acquire rid s = Inr (False, s')
     \<and> status (procs s' c) = PROCESS_BLOCKED
     \<and> waitqueue (get_resource rid s') = waitqueue (get_resource rid s) @ [c]
     \<and> owner (get_resource rid s') = Some ow
     \<and> prio (procs s' ow) =
         (if \<forall>x\<in>set (waitqueue (get_resource rid s)). prio (procs s x) \<le> prio (procs s c)
          then prio (procs s c) else prio (procs s ow))
     \<and> (prio (procs s ow) \<le> prio (procs s c) \<longrightarrow> prio (procs s ow) \<le> prio (procs s' ow))"
proof -
  let ?wq = "waitqueue (get_resource rid s)"
  from block_current_ok[OF assms(1,2)] obtain s1 where s1:
    "block_current rid s = Inr s1" "status (procs s1 c) = PROCESS_BLOCKED"
    "waitqueue (get_resource rid s1) = ?wq @ [c]"
    "owner (get_resource rid s1) = owner (get_resource rid s)"
    "\<forall>q. prio (procs s1 q) = prio (procs s q)"
    "current s1 = Some c" "in_table rid s1" by blast
  have "?wq @ [c] \<noteq> []" by simp
  from highest_of_first_max[OF this, of "procs s1"] obtain h where
    h: "highest_of (procs s1) (?wq @ [c]) = Some h" by blast
  from highest_appended_eq[OF h]
  have eq: "prio (procs s1 c) = prio (procs s1 h)
      \<longleftrightarrow> (\<forall>x\<in>set ?wq. prio (procs s x) \<le> prio (procs s c))"
    using s1(5) by simp
  have run: "pip_acquire rid s =
      (if prio (procs s1 c) = prio (procs s1 h)
       then Inr (False, set_prio ow (prio (procs s1 c)) s1) else Inr (False, s1))"
    using assms s1 h by (simp add: pip_acquire_def Let_def get_highest_prio_wait_def)
  show ?thesis
  proof (cases "\<forall>x\<in>set ?wq. prio (procs s x) \<le> prio (procs s c)")
    case True
    with eq run have "pip_acquire rid s = Inr (False, set_prio ow (prio (procs s1 c)) s1)"
      by simp
    with True s1 assms(3) show ?thesis by simp
  next
    case False
    with eq run have "pip_acquire rid s = Inr (False, s1)" by simp
    with s1 assms(3) show ?thesis by (simp add: False)
  qed
qed

theorem pip_acquire_contended_witness:
  "in_table 0 ex_held \<and> current ex_held = Some 2 \<and> owner (get_resource 0 ex_held) = Some 1
   \<and> (\<exists>s'. pip_acquire 0 ex_held = Inr (False, s') \<and> status (procs s' 2) = PROCESS_BLOCKED
        \<and> waitqueue (get_resource 0 s') = [2] \<and> prio (procs s' 1) = 1)"
proof -
  have h: "in_table 0 ex_held" "current ex_held = Some 2" "owner (get_resource 0 ex_held) = Some 1"
    by (simp_all add: ex_defs)
  have q: "waitqueue (get_resource 0 ex_held) = []" "prio (procs ex_held 2) = 1"
    by (simp_all add: ex_defs)
  from pip_acquire_contended[OF h] q
  have "\<exists>s'. pip_acquire 0 ex_held = Inr (False, s') \<and> status (procs s' 2) = PROCESS_BLOCKED
        \<and> waitqueue (get_resource 0 s') = [2] \<and> prio (procs s' 1) = 1"
    by auto
  with h show ?thesis by simp
qed

text \<open>
  Process 2 (priority 1) owns resource 1, on which process 1 (priority 5), the owner of
  resource 0, is blocked; process 2 runs at its original priority again, having released
  resource 2 in between.  It asks for resource 0, whose waitqueue is empty: the priority of the
  owner, process 1, drops from 5 to 1.
\<close>

theorem pip_acquire_lowers_owner:
  "current ex_held = Some 2 \<and> owner (get_resource 0 ex_held) = Some 1
   \<and> prio (procs ex_held 2) = 1 \<and> prio (procs ex_held 1) = 5
   \<and> pip_acquire 0 ex_held =
       Inr (False, ex_held\<lparr>
         procs := (procs ex_held)(2 := proc_of PROCESS_BLOCKED 2 5 1,
                                  1 := (proc_of PROCESS_BLOCKED 1 5 5)\<lparr>prio := 1\<rparr>),
         resources := [\<lparr>owner = Some 1, waitqueue = [2]\<rparr>,
                       \<lparr>owner = Some 2, waitqueue = [1]\<rparr>, free_resource]\<rparr>)
   \<and> prio ((proc_of PROCESS_BLOCKED 1 5 5)\<lparr>prio := 1\<rparr>) < prio (procs ex_held 1)"
  by (simp add: ex_defs pip_acquire_def block_current_def Let_def get_highest_prio_wait_def
      highest_of_def put_resource_def set_status_def set_prio_def)

section \<open>STCF\<close>

lemma shortest_loop_first_min:
  "first_min ps pre h \<Longrightarrow> first_min ps (pre @ xs) (shortest_loop ps h xs)"
proof (induction xs arbitrary: pre h)
  case Nil
  then show ?case by simp
next
  case (Cons t ts)
  from Cons.prems obtain ys zs where d: "pre = ys @ h # zs"
    "\<forall>y\<in>set ys. remain_time (ps h) < remain_time (ps y)"
    "\<forall>z\<in>set zs. remain_time (ps h) \<le> remain_time (ps z)"
    by blast
  have "first_min ps (pre @ [t]) (if remain_time (ps t) < remain_time (ps h) then t else h)"
  proof (cases "remain_time (ps t) < remain_time (ps h)")
    case True
    have "\<forall>y\<in>set pre. remain_time (ps t) < remain_time (ps y)"
      using d True by fastforce
    then have "first_min ps (pre @ [t]) t"
      by (intro exI[of _ pre] exI[of _ "[]"]) simp
    with True show ?thesis by simp
  next
    case False
    then have "remain_time (ps h) \<le> remain_time (ps t)" by simp
    then have "first_min ps (pre @ [t]) h"
      using d by (intro exI[of _ ys] exI[of _ "zs @ [t]"]) auto
    with False show ?thesis by simp
  qed
  from Cons.IH[OF this] show ?case by simp
qed

lemma get_shortest_first_min:
  assumes "readyqueue s \<noteq> []"
  shows "\<exists>w. get_shortest s = Some w \<and> first_min (procs s) (readyqueue s) w"
proof -
  from assms obtain x xs where q: "readyqueue s = x # xs" by (cases "readyqueue s") auto
  have "first_min (procs s) [x] x" by (intro exI[of _ "[]"]) simp
  from shortest_loop_first_min[OF this, of xs]
  have "first_min (procs s) (x # xs) (shortest_loop (procs s) x xs)" by simp
  then show ?thesis by (simp add: get_shortest_def q)
qed

lemma get_shortest_lower:
  assumes "get_shortest s = Some w"
  shows "w \<in> set (readyqueue s)
     \<and> (\<forall>x\<in>set (readyqueue s). remain_time (procs s w) \<le> remain_time (procs s x))"
proof -
  from assms have "readyqueue s \<noteq> []" by (auto simp: get_shortest_def)
  from get_shortest_first_min[OF this] assms
  obtain ys zs where "readyqueue s = ys @ w # zs"
    "\<forall>y\<in>set ys. remain_time (procs s w) < remain_time (procs s y)"
    "\<forall>z\<in>set zs. remain_time (procs s w) \<le> remain_time (procs s z)" by auto
  then show ?thesis by (auto intro: less_imp_le)
qed

lemma stcf_pick_pushed:
  "\<exists>n. stcf_pick_next (s\<lparr>readyqueue := c # readyqueue s\<rparr>) =
         Inr (Some n, s\<lparr>readyqueue := remove1 n (c # readyqueue s)\<rparr>)
     \<and> (n \<noteq> c \<longleftrightarrow> (\<exists>x\<in>set (readyqueue s). remain_time (procs s x) < remain_time (procs s c)))
     \<and> (n \<noteq> c \<longrightarrow> n \<in> set (readyqueue s)
           \<and> (\<forall>x\<in>set (readyqueue s). remain_time (procs s n) \<le> remain_time (procs s x)))"
proof -
  define s1 where "s1 = s\<lparr>readyqueue := c # readyqueue s\<rparr>"
  have rq: "readyqueue s1 = c # readyqueue s" and ps: "procs s1 = procs s"
    and upd: "s1\<lparr>readyqueue := q\<rparr> = s\<lparr>readyqueue := q\<rparr>" for q
    by (simp_all add: s1_def)
  then have ne: "readyqueue s1 \<noteq> []" by simp
  from get_shortest_first_min[OF ne] obtain n ys zs where
    n: "get_shortest s1 = Some n" and d: "c # readyqueue s = ys @ n # zs"
    and lt: "\<forall>y\<in>set ys. remain_time (procs s n) < remain_time (procs s y)"
    and le: "\<forall>z\<in>set zs. remain_time (procs s n) \<le> remain_time (procs s z)"
    unfolding rq ps by blast
  have run: "stcf_pick_next (s\<lparr>readyqueue := c # readyqueue s\<rparr>) =
      Inr (Some n, s\<lparr>readyqueue := remove1 n (c # readyqueue s)\<rparr>)"
    using n ne unfolding s1_def[symmetric] by (simp add: stcf_pick_next_def rq upd)
  from get_shortest_lower[OF n]
  have low: "\<forall>x\<in>set (readyqueue s). remain_time (procs s n) \<le> remain_time (procs s x)"
    and low_c: "remain_time (procs s n) \<le> remain_time (procs s c)"
    unfolding rq ps by simp_all
  show ?thesis
  proof (cases ys)
    case Nil
    with d have "n = c" by simp
    with low run show ?thesis by (auto simp: not_less)
  next
    case (Cons y ys')
    with d have y: "y = c" and rest: "readyqueue s = ys' @ n # zs" by simp_all
    from lt Cons y have "remain_time (procs s n) < remain_time (procs s c)" by simp
    moreover from this have "n \<noteq> c" by auto
    moreover have "n \<in> set (readyqueue s)" using rest by simp
    ultimately show ?thesis using run low by auto
  qed
qed

text \<open>
  What \<^verbatim>\<open>stcf_schedule\<close> does with a runnable current process, in terms of the
  \<^verbatim>\<open>int\<close> that \<^verbatim>\<open>remain_time\<close> returns.
\<close>

lemma stcf_schedule_by_remain_time:
  assumes "current s = Some c" and "status (procs s c) \<noteq> PROCESS_BLOCKED"
    and "age (procs s c) < lifespan (procs s c)"
  shows "\<exists>n s'. stcf_schedule s = Inr (Some n, s')
     \<and> (n \<noteq> c \<longleftrightarrow> (\<exists>x\<in>set (readyqueue s). remain_time (procs s x) < remain_time (procs s c)))
     \<and> (n \<noteq> c \<longrightarrow> n \<in> set (readyqueue s)
           \<and> (\<forall>x\<in>set (readyqueue s). remain_time (procs s n) \<le> remain_time (procs s x))
           \<and> readyqueue s' = c # remove1 n (readyqueue s))
     \<and> (n = c \<longrightarrow> readyqueue s' = readyqueue s)
     \<and> procs s' = procs s"
proof (cases "get_shortest s = Some c")
  case True
  from get_shortest_lower[OF True]
  have "\<not> (\<exists>x\<in>set (readyqueue s). remain_time (procs s x) < remain_time (procs s c))"
    by (auto simp: not_less)
  moreover have "stcf_schedule s = Inr (Some c, s)"
    using assms True by (simp add: stcf_schedule_def)
  ultimately show ?thesis by simp
next
  case False
  let ?s1 = "s\<lparr>readyqueue := c # readyqueue s\<rparr>"
  have run: "stcf_schedule s = stcf_pick_next ?s1"
    using assms False by (simp add: stcf_schedule_def)
  from stcf_pick_pushed[where s=s and c=c] obtain n where n:
    "stcf_pick_next ?s1 = Inr (Some n, s\<lparr>readyqueue := remove1 n (c # readyqueue s)\<rparr>)"
    "n \<noteq> c \<longleftrightarrow> (\<exists>x\<in>set (readyqueue s). remain_time (procs s x) < remain_time (procs s c))"
    "n \<noteq> c \<longrightarrow> n \<in> set (readyqueue s)
           \<and> (\<forall>x\<in>set (readyqueue s). remain_time (procs s n) \<le> remain_time (procs s x))"
    by blast
  show ?thesis
    unfolding run n(1)
    by (intro exI[of _ n] exI[of _ "s\<lparr>readyqueue := remove1 n (c # readyqueue s)\<rparr>"])
       (use n(2,3) in auto)
qed

lemma remain_time_exact:
  assumes "age p \<le> lifespan p" and "time_left p < 2 ^ 31"
  shows "remain_time p = time_left p"
proof -
  have u: "uint (lifespan p - age p) = uint (lifespan p) - uint (age p)"
    using assms(1) by (simp add: uint_sub_lem word_le_def)
  then have "uint (lifespan p - age p) < 2 ^ 31" using assms(2) by simp
  then have "sint (lifespan p - age p) = uint (lifespan p - age p)"
    by (simp add: sint_uint signed_take_bit_eq_if_positive bit_iff_odd take_bit_int_eq_self uint_ge_0 div_pos_pos_trivial)
  with u show ?thesis by (simp add: remain_time_def)
qed

text \<open>
  C7, as the code has it.  \<^verbatim>\<open>remain_time\<close> returns an \<^verbatim>\<open>int\<close>, so the comparison is
  one of remaining times only while they fit: let the current process \<open>c\<close> and every
  process of the readyqueue have \<open>age \<le> lifespan\<close> and a remaining time
  \<open>lifespan - age\<close> below \<open>2^31\<close>.  Then \<^verbatim>\<open>stcf_schedule\<close> with \<open>c\<close> not blocked and
  \<open>age < lifespan\<close> selects some process \<open>n\<close>, and \<open>n\<close> differs from \<open>c\<close> exactly when
  some process of the readyqueue has a strictly smaller remaining time than \<open>c\<close>.  When
  \<open>c\<close> is preempted, \<open>n\<close> comes from the readyqueue, no process of the readyqueue has less
  remaining time than \<open>n\<close>, and the new readyqueue is the old one without \<open>n\<close> and with
  \<open>c\<close> at its head.  When \<open>c\<close> is kept (in particular on a tie with the shortest ready
  process) the readyqueue is unchanged.  No process record changes.
\<close>

theorem stcf_preempts_iff_strictly_shorter_in_range:
  assumes "current s = Some c" and "status (procs s c) \<noteq> PROCESS_BLOCKED"
    and "age (procs s c) < lifespan (procs s c)"
    and "\<forall>x\<in>set (c # readyqueue s).
           age (procs s x) \<le> lifespan (procs s x) \<and> time_left (procs s x) < 2 ^ 31"
  shows "\<exists>n s'. stcf_schedule s = Inr (Some n, s')
     \<and> (n \<noteq> c \<longleftrightarrow> (\<exists>x\<in>set (readyqueue s). time_left (procs s x) < time_left (procs s c)))
     \<and> (n \<noteq> c \<longrightarrow> n \<in> set (readyqueue s)
           \<and> (\<forall>x\<in>set (readyqueue s). time_left (procs s n) \<le> time_left (procs s x))
           \<and> readyqueue s' = c # remove1 n (readyqueue s))
     \<and> (n = c \<longrightarrow> readyqueue s' = readyqueue s)
     \<and> procs s' = procs s"
proof -
  have ex: "remain_time (procs s x) = time_left (procs s x)" if "x \<in> set (c # readyqueue s)" for x
    using assms(4) that by (intro remain_time_exact) auto
  from stcf_schedule_by_remain_time[OF assms(1-3)] obtain n s' where r:
    "stcf_schedule s = Inr (Some n, s')"
    "n \<noteq> c \<longleftrightarrow> (\<exists>x\<in>set (readyqueue s). remain_time (procs s x) < remain_time (procs s c))"
    "n \<noteq> c \<longrightarrow> n \<in> set (readyqueue s)
           \<and> (\<forall>x\<in>set (readyqueue s). remain_time (procs s n) \<le> remain_time (procs s x))
           \<and> readyqueue s' = c # remove1 n (readyqueue s)"
    "n = c \<longrightarrow> readyqueue s' = readyqueue s" "procs s' = procs s"
    by blast
  have 1: "n \<noteq> c \<longleftrightarrow> (\<exists>x\<in>set (readyqueue s). time_left (procs s x) < time_left (procs s c))"
    using r(2) ex by simp
  have 2: "n \<noteq> c \<longrightarrow> n \<in> set (readyqueue s)
           \<and> (\<forall>x\<in>set (readyqueue s). time_left (procs s n) \<le> time_left (procs s x))
           \<and> readyqueue s' = c # remove1 n (readyqueue s)"
  proof
    assume "n \<noteq> c"
    with r(3) have m: "n \<in> set (readyqueue s)"
      and le: "\<forall>x\<in>set (readyqueue s). remain_time (procs s n) \<le> remain_time (procs s x)"
      and q: "readyqueue s' = c # remove1 n (readyqueue s)" by simp_all
    from m have "remain_time (procs s n) = time_left (procs s n)" by (intro ex) simp
    with le ex have "\<forall>x\<in>set (readyqueue s). time_left (procs s n) \<le> time_left (procs s x)"
      by simp
    with m q show "n \<in> set (readyqueue s)
           \<and> (\<forall>x\<in>set (readyqueue s). time_left (procs s n) \<le> time_left (procs s x))
           \<and> readyqueue s' = c # remove1 n (readyqueue s)" by simp
  qed
  from r(1,4,5) 1 2 show ?thesis by blast
qed

theorem stcf_preempts_iff_strictly_shorter_in_range_witness:
  "current ex_stcf = Some 1 \<and> status (procs ex_stcf 1) \<noteq> PROCESS_BLOCKED
   \<and> age (procs ex_stcf 1) < lifespan (procs ex_stcf 1)
   \<and> readyqueue ex_stcf = [2]
   \<and> age (procs ex_stcf 2) \<le> lifespan (procs ex_stcf 2)
   \<and> time_left (procs ex_stcf 1) = 2 \<and> time_left (procs ex_stcf 2) = 3
   \<and> (\<exists>s'. stcf_schedule ex_stcf = Inr (Some 1, s') \<and> readyqueue s' = [2])
   \<and> current ex_stcf_short = Some 1 \<and> status (procs ex_stcf_short 1) \<noteq> PROCESS_BLOCKED
   \<and> age (procs ex_stcf_short 1) < lifespan (procs ex_stcf_short 1)
   \<and> readyqueue ex_stcf_short = [2, 3]
   \<and> age (procs ex_stcf_short 2) \<le> lifespan (procs ex_stcf_short 2)
   \<and> age (procs ex_stcf_short 3) \<le> lifespan (procs ex_stcf_short 3)
   \<and> time_left (procs ex_stcf_short 1) = 2 \<and> time_left (procs ex_stcf_short 2) = 3
   \<and> time_left (procs ex_stcf_short 3) = 1
   \<and> (\<exists>n s'. stcf_schedule ex_stcf_short = Inr (Some n, s') \<and> n \<noteq> 1
         \<and> readyqueue s' = 1 # remove1 n [2, 3])"
proof -
  have h: "current ex_stcf = Some 1" "status (procs ex_stcf 1) \<noteq> PROCESS_BLOCKED"
    "age (procs ex_stcf 1) < lifespan (procs ex_stcf 1)"
    by (simp_all add: ex_stcf_def ex_defs)
  have r: "time_left (procs ex_stcf 1) = 2" "time_left (procs ex_stcf 2) = 3"
    "readyqueue ex_stcf = [2]" "age (procs ex_stcf 2) \<le> lifespan (procs ex_stcf 2)"
    by (simp_all add: ex_stcf_def ex_defs)
  have b: "\<forall>x\<in>set (1 # readyqueue ex_stcf).
      age (procs ex_stcf x) \<le> lifespan (procs ex_stcf x) \<and> time_left (procs ex_stcf x) < 2 ^ 31"
    using h(3) r by simp
  have h': "current ex_stcf_short = Some 1" "status (procs ex_stcf_short 1) \<noteq> PROCESS_BLOCKED"
    "age (procs ex_stcf_short 1) < lifespan (procs ex_stcf_short 1)"
    by (simp_all add: ex_stcf_short_def ex_stcf_def ex_defs)
  have r': "time_left (procs ex_stcf_short 1) = 2" "time_left (procs ex_stcf_short 2) = 3"
    "time_left (procs ex_stcf_short 3) = 1"
    "readyqueue ex_stcf_short = [2, 3]"
    "age (procs ex_stcf_short 2) \<le> lifespan (procs ex_stcf_short 2)"
    "age (procs ex_stcf_short 3) \<le> lifespan (procs ex_stcf_short 3)"
    by (simp_all add: ex_stcf_short_def ex_stcf_def ex_defs)
  have b': "\<forall>x\<in>set (1 # readyqueue ex_stcf_short).
      age (procs ex_stcf_short x) \<le> lifespan (procs ex_stcf_short x)
      \<and> time_left (procs ex_stcf_short x) < 2 ^ 31"
    using h'(3) r' by simp
  have 1: "\<exists>s'. stcf_schedule ex_stcf = Inr (Some 1, s') \<and> readyqueue s' = [2]"
  proof -
    from stcf_preempts_iff_strictly_shorter_in_range[OF h b] obtain n s' where n:
      "stcf_schedule ex_stcf = Inr (Some n, s')"
      "n \<noteq> 1 \<longleftrightarrow> (\<exists>x\<in>set (readyqueue ex_stcf).
          time_left (procs ex_stcf x) < time_left (procs ex_stcf 1))"
      "n = 1 \<longrightarrow> readyqueue s' = readyqueue ex_stcf"
      by blast
    have "\<not> (\<exists>x\<in>set (readyqueue ex_stcf).
          time_left (procs ex_stcf x) < time_left (procs ex_stcf 1))"
      using r by simp
    with n(2) have "n = 1" by simp
    with n(1,3) show ?thesis by (auto simp: r(3))
  qed
  have 2: "\<exists>n s'. stcf_schedule ex_stcf_short = Inr (Some n, s') \<and> n \<noteq> 1
         \<and> readyqueue s' = 1 # remove1 n [2, 3]"
  proof -
    from stcf_preempts_iff_strictly_shorter_in_range[OF h' b'] obtain n s' where n:
      "stcf_schedule ex_stcf_short = Inr (Some n, s')"
      "n \<noteq> 1 \<longleftrightarrow> (\<exists>x\<in>set (readyqueue ex_stcf_short).
          time_left (procs ex_stcf_short x) < time_left (procs ex_stcf_short 1))"
      "n \<noteq> 1 \<longrightarrow> readyqueue s' = 1 # remove1 n (readyqueue ex_stcf_short)"
      by blast
    have "\<exists>x\<in>set (readyqueue ex_stcf_short).
          time_left (procs ex_stcf_short x) < time_left (procs ex_stcf_short 1)"
      using r' by simp
    with n(2) have "n \<noteq> 1" by simp
    with n(1,3) show ?thesis by (auto simp: r'(4))
  qed
  from h r h' r' 1 2 show ?thesis by blast
qed

text \<open>
  The current process has lifespan 3000000000 and age 0, the only ready process lifespan 5
  and age 0.  As an \<^verbatim>\<open>int\<close> the remaining time of the current process is negative, so
  it counts as the shorter one and keeps the CPU, although the ready process has strictly
  less time left.
\<close>

theorem stcf_keeps_longer_current:
  "current ex_stcf_long = Some 1 \<and> status (procs ex_stcf_long 1) = PROCESS_RUNNING
   \<and> age (procs ex_stcf_long 1) < lifespan (procs ex_stcf_long 1)
   \<and> readyqueue ex_stcf_long = [2]
   \<and> time_left (procs ex_stcf_long 1) = 3000000000
   \<and> time_left (procs ex_stcf_long 2) = 5
   \<and> remain_time (procs ex_stcf_long 1) = - 1294967296
   \<and> stcf_schedule ex_stcf_long = Inr (Some 1, ex_stcf_long\<lparr>readyqueue := [2]\<rparr>)"
  by (simp add: ex_stcf_long_def ex_defs stcf_schedule_def stcf_pick_next_def get_shortest_def
      remain_time_def)

section \<open>Preemption in the priority family\<close>

lemma higher_ready_differs:
  assumes "\<exists>x\<in>set (readyqueue s). prio (procs s c) < prio (procs s x)"
  shows "\<exists>h. get_highest_prio s = Some h \<and> prio (procs s h) \<noteq> prio (procs s c)"
proof -
  from assms obtain x where x: "x \<in> set (readyqueue s)" "prio (procs s c) < prio (procs s x)"
    by blast
  then have "readyqueue s \<noteq> []" by auto
  from highest_of_first_max[OF this, of "procs s"] obtain h where
    h: "highest_of (procs s) (readyqueue s) = Some h" by blast
  from highest_of_upper[OF h] x have "prio (procs s c) < prio (procs s h)" by auto
  with h show ?thesis by (auto simp: get_highest_prio_def)
qed

text \<open>
  C8, as the code has it.  Let the current process \<open>c\<close> be runnable (not blocked,
  \<open>age < lifespan\<close>) while the readyqueue holds a process of strictly higher priority, and
  let the policy's own stack be \<open>t # ts\<close>.  Then, in \<^verbatim>\<open>pa_schedule\<close> (after its aging
  step, that is for \<open>pa_check\<close>), \<^verbatim>\<open>pcp_schedule\<close> and \<^verbatim>\<open>pip_schedule\<close>, the jump to
  \<^verbatim>\<open>pick_next\<close> is taken with \<open>c\<close> appended at the tail of the readyqueue when the
  priority of the stack's head \<open>t\<close> differs from that of \<open>c\<close>, and with \<open>c\<close> pushed on the
  stack, the readyqueue untouched, when the two priorities are equal.
\<close>

theorem preempted_current_placement:
  assumes "current s = Some c" and "status (procs s c) \<noteq> PROCESS_BLOCKED"
    and "age (procs s c) < lifespan (procs s c)"
    and "\<exists>x\<in>set (readyqueue s). prio (procs s c) < prio (procs s x)"
  shows "(\<forall>t ts. pa_stack s = t # ts \<longrightarrow>
            pa_check s = Inr (Goto_pick_next
              (if prio (procs s t) = prio (procs s c) then s\<lparr>pa_stack := c # t # ts\<rparr>
               else s\<lparr>readyqueue := readyqueue s @ [c]\<rparr>)))
       \<and> (\<forall>t ts. pcp_stack s = t # ts \<longrightarrow>
            pcp_check s = Inr (Goto_pick_next
              (if prio (procs s t) = prio (procs s c) then s\<lparr>pcp_stack := c # t # ts\<rparr>
               else s\<lparr>readyqueue := readyqueue s @ [c]\<rparr>)))
       \<and> (\<forall>t ts. pip_stack s = t # ts \<longrightarrow>
            pip_check s = Inr (Goto_pick_next
              (if prio (procs s t) = prio (procs s c) then s\<lparr>pip_stack := c # t # ts\<rparr>
               else s\<lparr>readyqueue := readyqueue s @ [c]\<rparr>)))"
proof -
  from higher_ready_differs[OF assms(4)] obtain h where
    h: "get_highest_prio s = Some h" "prio (procs s h) \<noteq> prio (procs s c)" by blast
  show ?thesis
    using assms(1-3) h
    by (simp add: pa_check_def pcp_check_def pip_check_def head_prio_def)
qed

theorem preempted_current_placement_witness:
  "current ex_preempt = Some 1 \<and> status (procs ex_preempt 1) \<noteq> PROCESS_BLOCKED
   \<and> age (procs ex_preempt 1) < lifespan (procs ex_preempt 1)
   \<and> readyqueue ex_preempt = [2] \<and> prio (procs ex_preempt 1) < prio (procs ex_preempt 2)
   \<and> prio (procs ex_preempt 3) \<noteq> prio (procs ex_preempt 1)
   \<and> pa_stack ex_preempt_pa = [3]
   \<and> pa_check ex_preempt_pa = Inr (Goto_pick_next (ex_preempt_pa\<lparr>readyqueue := [2, 1]\<rparr>))
   \<and> pcp_stack ex_preempt_pcp = [3]
   \<and> pcp_check ex_preempt_pcp = Inr (Goto_pick_next (ex_preempt_pcp\<lparr>readyqueue := [2, 1]\<rparr>))
   \<and> pip_stack ex_preempt_pip = [3]
   \<and> pip_check ex_preempt_pip = Inr (Goto_pick_next (ex_preempt_pip\<lparr>readyqueue := [2, 1]\<rparr>))"
proof -
  have h: "current ex_preempt = Some 1" "status (procs ex_preempt 1) \<noteq> PROCESS_BLOCKED"
    "age (procs ex_preempt 1) < lifespan (procs ex_preempt 1)"
    by (simp_all add: ex_preempt_def ex_defs)
  have q: "readyqueue ex_preempt = [2]" "prio (procs ex_preempt 1) < prio (procs ex_preempt 2)"
    "prio (procs ex_preempt 3) \<noteq> prio (procs ex_preempt 1)"
    by (simp_all add: ex_preempt_def ex_defs)
  have hi: "\<exists>x\<in>set (readyqueue ex_preempt).
      prio (procs ex_preempt 1) < prio (procs ex_preempt x)"
    using q(1,2) by simp
  have st: "pa_stack ex_preempt_pa = [3]" "pcp_stack ex_preempt_pcp = [3]"
    "pip_stack ex_preempt_pip = [3]"
    by (simp_all add: ex_preempt_pa_def ex_preempt_pcp_def ex_preempt_pip_def)
  have pa: "current ex_preempt_pa = current ex_preempt" "procs ex_preempt_pa = procs ex_preempt"
    "readyqueue ex_preempt_pa = readyqueue ex_preempt"
    by (simp_all add: ex_preempt_pa_def)
  have pcp: "current ex_preempt_pcp = current ex_preempt"
    "procs ex_preempt_pcp = procs ex_preempt"
    "readyqueue ex_preempt_pcp = readyqueue ex_preempt"
    by (simp_all add: ex_preempt_pcp_def)
  have pip: "current ex_preempt_pip = current ex_preempt"
    "procs ex_preempt_pip = procs ex_preempt"
    "readyqueue ex_preempt_pip = readyqueue ex_preempt"
    by (simp_all add: ex_preempt_pip_def)
  note a = preempted_current_placement[of ex_preempt_pa 1, unfolded pa, OF h hi]
  note b = preempted_current_placement[of ex_preempt_pcp 1, unfolded pcp, OF h hi]
  note c = preempted_current_placement[of ex_preempt_pip 1, unfolded pip, OF h hi]
  from a st(1) have "pa_check ex_preempt_pa = Inr (Goto_pick_next
      (if prio (procs ex_preempt 3) = prio (procs ex_preempt 1)
       then ex_preempt_pa\<lparr>pa_stack := [1, 3]\<rparr>
       else ex_preempt_pa\<lparr>readyqueue := readyqueue ex_preempt @ [1]\<rparr>))"
    by blast
  then have 1: "pa_check ex_preempt_pa = Inr (Goto_pick_next (ex_preempt_pa\<lparr>readyqueue := [2, 1]\<rparr>))"
    by (simp only: q if_False append.simps)
  from b st(2) have "pcp_check ex_preempt_pcp = Inr (Goto_pick_next
      (if prio (procs ex_preempt 3) = prio (procs ex_preempt 1)
       then ex_preempt_pcp\<lparr>pcp_stack := [1, 3]\<rparr>
       else ex_preempt_pcp\<lparr>readyqueue := readyqueue ex_preempt @ [1]\<rparr>))"
    by blast
  then have 2: "pcp_check ex_preempt_pcp = Inr (Goto_pick_next (ex_preempt_pcp\<lparr>readyqueue := [2, 1]\<rparr>))"
    by (simp only: q if_False append.simps)
  from c st(3) have "pip_check ex_preempt_pip = Inr (Goto_pick_next
      (if prio (procs ex_preempt 3) = prio (procs ex_preempt 1)
       then ex_preempt_pip\<lparr>pip_stack := [1, 3]\<rparr>
       else ex_preempt_pip\<lparr>readyqueue := readyqueue ex_preempt @ [1]\<rparr>))"
    by blast
  then have 3: "pip_check ex_preempt_pip = Inr (Goto_pick_next (ex_preempt_pip\<lparr>readyqueue := [2, 1]\<rparr>))"
    by (simp only: q if_False append.simps)
  from h q st 1 2 3 show ?thesis by blast
qed

text \<open>
  Processes 1 and 3 share priority 3 and take turns; 3 waits on the stack while 1 runs.
  Process 2 of priority 5 is ready.  The current process 1 joins the stack; the readyqueue
  is not touched.
\<close>

theorem preempted_current_goes_to_stack:
  "current ex_cohort = Some 1 \<and> status (procs ex_cohort 1) = PROCESS_RUNNING
   \<and> age (procs ex_cohort 1) < lifespan (procs ex_cohort 1)
   \<and> readyqueue ex_cohort = [2] \<and> prio (procs ex_cohort 1) < prio (procs ex_cohort 2)
   \<and> pcp_check ex_cohort = Inr (Goto_pick_next (ex_cohort\<lparr>pcp_stack := [1, 3]\<rparr>))
   \<and> readyqueue (ex_cohort\<lparr>pcp_stack := [1, 3]\<rparr>) \<noteq> readyqueue ex_cohort @ [1]"
  by (simp add: ex_cohort_def ex_defs pcp_check_def get_highest_prio_def highest_of_def
      head_prio_def)

section \<open>Reading the head of an empty stack\<close>

text \<open>
  C10 fails in the code.  Process 1 (priority 1) runs, process 2 (priority 2) is ready, every
  stack is empty.  The highest ready priority differs from the current one, so each of the
  four \<^verbatim>\<open>schedule()\<close> functions reads the priority of the head of its empty stack.
\<close>

theorem stack_head_read_on_empty_stack:
  "current ex_first_preempt = Some 1 \<and> status (procs ex_first_preempt 1) = PROCESS_RUNNING
   \<and> age (procs ex_first_preempt 1) < lifespan (procs ex_first_preempt 1)
   \<and> get_highest_prio ex_first_preempt = Some 2
   \<and> prio (procs ex_first_preempt 2) \<noteq> prio (procs ex_first_preempt 1)
   \<and> prio_stack ex_first_preempt = [] \<and> pa_stack ex_first_preempt = []
   \<and> pcp_stack ex_first_preempt = [] \<and> pip_stack ex_first_preempt = []
   \<and> prio_schedule ex_first_preempt = Inl EmptyListEntry
   \<and> pa_schedule 64 ex_first_preempt = Inl EmptyListEntry
   \<and> pcp_schedule ex_first_preempt = Inl EmptyListEntry
   \<and> pip_schedule ex_first_preempt = Inl EmptyListEntry"
  by (simp add: ex_first_preempt_def ex_defs get_highest_prio_def highest_of_def head_prio_def
      prio_schedule_def prio_check_def pa_schedule_def pa_check_def pa_aging_def prio_reset_def
      prio_boost_def boost_one_def set_prio_def
      pcp_schedule_def pcp_check_def pip_schedule_def pip_check_def)

section \<open>The last loop of pip_schedule\<close>

text \<open>
  C3 fails in the code.  Process 3 has just blocked, process 2 (priority 5) is ready and
  process 1 (priority 3) sits on \<open>pip_stack\<close>.  The tentative pick is 2; the head of
  \<open>pip_stack\<close> has another priority, yet the loop runs over the empty \<open>pcp_stack\<close>:
  process 1 stays on \<open>pip_stack\<close> and does not reach the readyqueue.  \<^verbatim>\<open>pcp_schedule\<close> in
  the same situation empties its own stack into the readyqueue.
\<close>

theorem pip_schedule_leaves_pip_stack:
  "pip_schedule ex_pip_blocked = Inr (Some 2, ex_pip_blocked\<lparr>readyqueue := []\<rparr>)
   \<and> pip_stack (ex_pip_blocked\<lparr>readyqueue := []\<rparr>) = [1]
   \<and> pcp_schedule ex_pcp_blocked = Inr (Some 2, ex_pcp_blocked\<lparr>readyqueue := [1], pcp_stack := []\<rparr>)"
  by (simp add: ex_pip_blocked_def ex_pcp_blocked_def ex_defs get_highest_prio_def highest_of_def
      head_prio_def pip_schedule_def pip_check_def pip_pick_next_def
      pcp_schedule_def pcp_check_def pcp_pick_next_def Let_def)

section \<open>The boost of Priority+Aging\<close>

text \<open>
  C2 fails in the code.  Process 2 waits in the readyqueue with priority \<open>MAX_PRIO\<close>.  The
  aging step of \<^verbatim>\<open>pa_schedule\<close> leaves it with \<open>MAX_PRIO + 1\<close>: the test after the
  increment only replaces \<open>MAX_PRIO\<close> by itself.  With \<open>MAX_PRIO = 64\<close> the whole call
  selects process 2 with priority 65.
\<close>

theorem prio_boost_passes_MAX_PRIO:
  "current (ex_ceiling MAX_PRIO) = Some 1 \<and> readyqueue (ex_ceiling MAX_PRIO) = [2]
   \<and> prio (procs (ex_ceiling MAX_PRIO) 2) = MAX_PRIO
   \<and> prio (procs (pa_aging MAX_PRIO (ex_ceiling MAX_PRIO)) 2) = MAX_PRIO + 1
   \<and> MAX_PRIO + 1 \<noteq> MAX_PRIO
   \<and> pa_schedule 64 (ex_ceiling 64) =
       Inr (Some 2, (ex_ceiling 64)\<lparr>
         procs := (procs (ex_ceiling 64))(2 := (proc_of PROCESS_READY 0 5 64)\<lparr>prio := 65\<rparr>,
                                          3 := (proc_of PROCESS_READY 1 5 9)\<lparr>prio := 10\<rparr>),
         readyqueue := [1, 3], pa_stack := []\<rparr>)
   \<and> (64 :: 32 word) < 65"
  by (simp add: ex_ceiling_def ex_defs get_highest_prio_def highest_of_def
      head_prio_def pa_schedule_def pa_check_def pa_pick_next_def pa_aging_def prio_reset_def
      prio_boost_def boost_one_def set_prio_def Let_def fun_upd_twist)

end
